theory Spec2Isabelle
  imports Main
begin

section \<open>Errors\<close>

text \<open>
  Go errors are values. The builders produce errors with \<^verbatim>\<open>fmt.Errorf\<close>; the cluster
  client produces API status errors, among which \<^verbatim>\<open>k8serrors.IsNotFound\<close> singles out
  the reason "NotFound". The text of \<^verbatim>\<open>msg.UndefinedCrdObjectErrString\<close> lives in a
  package that is not part of the sources, so the error built from it is kept symbolic
  (\<open>UndefinedCrdObjectErr\<close> applied to the resource kind).
\<close>

datatype StatusReason =
    StatusReasonNotFound
  | StatusReasonAlreadyExists
  | StatusReasonForbidden
  | StatusReasonInternalError

datatype error =
    Errorf string
  | UndefinedCrdObjectErr string
  | StatusError StatusReason string

fun IsNotFound :: "error \<Rightarrow> bool" where
  "IsNotFound (StatusError reason m) = (reason = StatusReasonNotFound)"
| "IsNotFound (Errorf m) = False"
| "IsNotFound (UndefinedCrdObjectErr crd) = False"

section \<open>The image-based group upgrade resource\<close>

text \<open>
  The fields of \<^verbatim>\<open>v1alpha1.ImageBasedGroupUpgrade\<close> that \<^verbatim>\<open>ibgu.go\<close> reads or writes.
  \<open>ResourceVersion\<close> is the field of the object metadata that the server assigns; it
  lets two observations of the same named resource differ. Go's \<^verbatim>\<open>int\<close> is only compared
  with zero here, never computed with, so it is an \<open>int\<close>. A label map is only tested for
  emptiness and stored, so it is an association list.
\<close>

record ObjectMeta =
  Name :: string
  Namespace :: string
  ResourceVersion :: string

record SeedImageRef =
  Image_ref :: string
  Version :: string

record ConfigMapRef =
  cmName :: string
  cmNamespace :: string

record ImageBasedUpgradeSpec =
  SeedImageRef :: SeedImageRef
  OADPContent :: "ConfigMapRef list"

record LabelSelector =
  MatchLabels :: "(string \<times> string) list"

record RolloutStrategy =
  MaxConcurrency :: int
  Timeout :: int

record PlanItem =
  Actions :: "string list"
  RolloutStrategy :: RolloutStrategy

record ImageBasedGroupUpgradeSpec =
  IBUSpec :: ImageBasedUpgradeSpec
  ClusterLabelSelectors :: "LabelSelector list"
  Plan :: "PlanItem list"

record ImageBasedGroupUpgrade =
  ObjectMeta :: ObjectMeta
  Spec :: ImageBasedGroupUpgradeSpec

text \<open>The zero value \<^verbatim>\<open>&v1alpha1.ImageBasedGroupUpgrade{}\<close>.\<close>

definition zeroIbgu :: ImageBasedGroupUpgrade where
  "zeroIbgu =
     \<lparr>ObjectMeta = \<lparr>Name = [], Namespace = [], ResourceVersion = []\<rparr>,
      Spec = \<lparr>IBUSpec = \<lparr>SeedImageRef = \<lparr>Image_ref = [], Version = []\<rparr>, OADPContent = []\<rparr>,
              ClusterLabelSelectors = [], Plan = []\<rparr>\<rparr>"

section \<open>The cluster client and the world\<close>

text \<open>
  Pointers are addresses into a heap of resources; \<open>None\<close> is the nil pointer. Every
  \<^verbatim>\<open>&T{...}\<close> of the source takes the next free address, so an address handed out
  once is never handed out again.

  The cluster client (\<^verbatim>\<open>goclient.Client\<close>) is outside the repository. Each of its three
  calls is a request that is appended to the trace of the world together with its
  response, and the response is any function of the trace so far and of the request: the
  cluster may answer differently each time, as it does when other actors change it.
  \<^item> \<open>clientGet\<close> answers a lookup by key with an error or the stored resource;
  \<^item> \<open>clientCreate\<close> answers with an optional error and the content the client leaves in
    the submitted object (it writes the server's answer back into it);
  \<^item> \<open>clientDelete\<close> is given the object behind the pointer it receives, \<open>None\<close> when
    that pointer is nil.
\<close>

type_synonym addr = nat

record ObjectKey =
  keyName :: string
  keyNamespace :: string

datatype event =
    EvGet ObjectKey "error + ImageBasedGroupUpgrade"
  | EvCreate ImageBasedGroupUpgrade "error option"
  | EvDelete "ImageBasedGroupUpgrade option" "error option"

record Client =
  clientGet :: "event list \<Rightarrow> ObjectKey \<Rightarrow> error + ImageBasedGroupUpgrade"
  clientCreate :: "event list \<Rightarrow> ImageBasedGroupUpgrade \<Rightarrow> error option \<times> ImageBasedGroupUpgrade"
  clientDelete :: "event list \<Rightarrow> ImageBasedGroupUpgrade option \<Rightarrow> error option"

record world =
  heap :: "addr \<Rightarrow> ImageBasedGroupUpgrade"
  nxt :: addr
  trace :: "event list"

section \<open>IbguBuilder\<close>

record IbguBuilder =
  Definition :: "addr option"
  Object :: "addr option"
  apiClient :: "Client option"
  errorMsg :: string

text \<open>
  \<^verbatim>\<open>validate\<close>: the receiver is a pointer that may be nil (\<open>None\<close>). The checks run in
  the order of the source: nil builder, nil definition, nil client, deferred error.
\<close>

definition validate :: "IbguBuilder option \<Rightarrow> bool \<times> error option" where
  "validate builder =
     (case builder of
        None \<Rightarrow> (False, Some (Errorf ''error: received nil ibgu builder''))
      | Some b \<Rightarrow>
          if Definition b = None then (False, Some (UndefinedCrdObjectErr ''ibgu''))
          else if apiClient b = None then
            (False, Some (Errorf ''ibgu builder cannot have nil apiClient''))
          else if errorMsg b \<noteq> [] then (False, Some (Errorf (errorMsg b)))
          else (True, None))"

text \<open>
  \<^verbatim>\<open>Get\<close> allocates a fresh object, asks the client to fill it and returns the pointer
  to it, or nil and the error. It assigns no field of the builder. The branches for a
  nil builder, definition or client after a passed validation cannot be taken; they
  return what a failed validation returns.
\<close>

definition Get :: "IbguBuilder option \<Rightarrow> world \<Rightarrow> (addr option \<times> error option) \<times> world" where
  "Get builder w =
     (case validate builder of
        (False, err) \<Rightarrow> ((None, err), w)
      | (True, _) \<Rightarrow>
          (case builder of
             None \<Rightarrow> ((None, snd (validate builder)), w)
           | Some b \<Rightarrow>
               (case (Definition b, apiClient b) of
                  (Some d, Some c) \<Rightarrow>
                    let imagebasedgroupupgrade = nxt w;
                        w1 = w\<lparr>heap := (heap w)(imagebasedgroupupgrade := zeroIbgu),
                               nxt := Suc (nxt w)\<rparr>;
                        key = \<lparr>keyName = Name (ObjectMeta (heap w d)),
                               keyNamespace = Namespace (ObjectMeta (heap w d))\<rparr>;
                        resp = clientGet c (trace w) key;
                        w2 = w1\<lparr>trace := trace w @ [EvGet key resp]\<rparr>
                    in (case resp of
                          Inl err \<Rightarrow> ((None, Some err), w2)
                        | Inr v \<Rightarrow>
                            ((Some imagebasedgroupupgrade, None),
                             w2\<lparr>heap := (heap w2)(imagebasedgroupupgrade := v)\<rparr>))
                | _ \<Rightarrow> ((None, snd (validate builder)), w))))"

text \<open>
  The key that \<^verbatim>\<open>Get\<close> builds from a definition, for use in statements about the
  requests a call issues.
\<close>

definition keyOf :: "ImageBasedGroupUpgrade \<Rightarrow> ObjectKey" where
  "keyOf obj = \<lparr>keyName = Name (ObjectMeta obj), keyNamespace = Namespace (ObjectMeta obj)\<rparr>"

text \<open>
  \<^verbatim>\<open>Exists\<close> returns the verdict, the builder after the call and the world after the
  call.
\<close>

definition Exists :: "IbguBuilder option \<Rightarrow> world \<Rightarrow> bool \<times> IbguBuilder option \<times> world" where
  "Exists builder w =
     (if \<not> fst (validate builder) then (False, builder, w)
      else
        (case Get builder w of
           ((obj, err), w') \<Rightarrow>
             ((case err of None \<Rightarrow> True | Some e \<Rightarrow> \<not> IsNotFound e),
              map_option (\<lambda>b. b\<lparr>Object := obj\<rparr>) builder, w')))"


text \<open>
  \<^verbatim>\<open>clients.Settings\<close> is declared outside the sources. \<^verbatim>\<open>ibgu.go\<close> uses its embedded
  client (an interface value, possibly nil) and the result of \<^verbatim>\<open>AttachScheme\<close>, which is
  taken as given.
\<close>

record Settings =
  Client :: "Client option"
  AttachScheme :: "error option"

text \<open>\<^verbatim>\<open>NewIbguBuilder\<close>: the result is a pointer to the new builder, or nil.\<close>

definition NewIbguBuilder ::
  "Settings option \<Rightarrow> string \<Rightarrow> string \<Rightarrow> world \<Rightarrow> IbguBuilder option \<times> world" where
  "NewIbguBuilder apiClient' name nsname w =
     (case apiClient' of
        None \<Rightarrow> (None, w)
      | Some s \<Rightarrow>
          (case AttachScheme s of
             Some err \<Rightarrow> (None, w)
           | None \<Rightarrow>
               let d = nxt w;
                   w' = w\<lparr>heap := (heap w)(d :=
                            \<lparr>ObjectMeta = \<lparr>Name = name, Namespace = nsname, ResourceVersion = []\<rparr>,
                             Spec = \<lparr>IBUSpec = \<lparr>SeedImageRef = \<lparr>Image_ref = [], Version = []\<rparr>,
                                                OADPContent = []\<rparr>,
                                     ClusterLabelSelectors = [], Plan = []\<rparr>\<rparr>),
                          nxt := Suc (nxt w)\<rparr>;
                   builder = \<lparr>Definition = Some d, Object = None, apiClient = Client s,
                              errorMsg = []\<rparr>
               in if name = [] then
                    (Some (builder\<lparr>errorMsg := ''ibgu 'name' cannot be empty''\<rparr>), w')
                  else if nsname = [] then
                    (Some (builder\<lparr>errorMsg := ''ibgu 'nsname' cannot be empty''\<rparr>), w')
                  else (Some builder, w')))"

text \<open>
  The configuration methods return the receiver. They write through the
  \<^verbatim>\<open>Definition\<close> pointer, so they change the heap at that address and nothing else.
\<close>

definition WithClusterLabelSelectors ::
  "IbguBuilder option \<Rightarrow> (string \<times> string) list \<Rightarrow> world \<Rightarrow> IbguBuilder option \<times> world" where
  "WithClusterLabelSelectors builder labels w =
     (if \<not> fst (validate builder) then (builder, w)
      else
        (case builder of
           None \<Rightarrow> (builder, w)
         | Some b \<Rightarrow>
             if length labels = 0 then
               (Some (b\<lparr>errorMsg := ''can not apply empty cluster label selectors to the IBGU''\<rparr>), w)
             else
               (case Definition b of
                  None \<Rightarrow> (builder, w)
                | Some d \<Rightarrow>
                    let labelSelectors = [\<lparr>MatchLabels = labels\<rparr>];
                        def = heap w d
                    in (builder,
                        w\<lparr>heap := (heap w)(d :=
                             def\<lparr>Spec := (Spec def)\<lparr>ClusterLabelSelectors := labelSelectors\<rparr>\<rparr>)\<rparr>))))"

definition WithSeedImageRef ::
  "IbguBuilder option \<Rightarrow> string \<Rightarrow> string \<Rightarrow> world \<Rightarrow> IbguBuilder option \<times> world" where
  "WithSeedImageRef builder seedImage seedVersion w =
     (if \<not> fst (validate builder) then (builder, w)
      else
        (case builder of
           None \<Rightarrow> (builder, w)
         | Some b \<Rightarrow>
             if seedImage = [] then (Some (b\<lparr>errorMsg := ''seedImage cannot be empty''\<rparr>), w)
             else if seedVersion = [] then
               (Some (b\<lparr>errorMsg := ''seedVersion cannot be empty''\<rparr>), w)
             else
               (case Definition b of
                  None \<Rightarrow> (builder, w)
                | Some d \<Rightarrow>
                    let ibuSpec = \<lparr>SeedImageRef = \<lparr>Image_ref = seedImage, Version = seedVersion\<rparr>,
                                   OADPContent = []\<rparr>;
                        def = heap w d
                    in (builder,
                        w\<lparr>heap := (heap w)(d := def\<lparr>Spec := (Spec def)\<lparr>IBUSpec := ibuSpec\<rparr>\<rparr>)\<rparr>))))"

definition WithOadpContent ::
  "IbguBuilder option \<Rightarrow> string \<Rightarrow> string \<Rightarrow> world \<Rightarrow> IbguBuilder option \<times> world" where
  "WithOadpContent builder name namespace w =
     (if \<not> fst (validate builder) then (builder, w)
      else
        (case builder of
           None \<Rightarrow> (builder, w)
         | Some b \<Rightarrow>
             if name = [] then
               (Some (b\<lparr>errorMsg := ''oadp content name cannot be empty''\<rparr>), w)
             else if namespace = [] then
               (Some (b\<lparr>errorMsg := ''oadp content namespace cannot be empty''\<rparr>), w)
             else
               (case Definition b of
                  None \<Rightarrow> (builder, w)
                | Some d \<Rightarrow>
                    let oadpContent = \<lparr>cmName = name, cmNamespace = namespace\<rparr>;
                        def = heap w d;
                        ibu = IBUSpec (Spec def)
                    in (builder,
                        w\<lparr>heap := (heap w)(d :=
                             def\<lparr>Spec := (Spec def)\<lparr>IBUSpec :=
                               ibu\<lparr>OADPContent := OADPContent ibu @ [oadpContent]\<rparr>\<rparr>\<rparr>)\<rparr>))))"

definition WithPlan ::
  "IbguBuilder option \<Rightarrow> string list \<Rightarrow> int \<Rightarrow> int \<Rightarrow> world \<Rightarrow> IbguBuilder option \<times> world" where
  "WithPlan builder actions maxConcurrency timeout w =
     (if \<not> fst (validate builder) then (builder, w)
      else
        (case builder of
           None \<Rightarrow> (builder, w)
         | Some b \<Rightarrow>
             if length actions = 0 then
               (Some (b\<lparr>errorMsg := ''plan actions cannot be empty''\<rparr>), w)
             else if maxConcurrency \<le> 0 then
               (Some (b\<lparr>errorMsg := ''maxConcurrency must be greater than 0''\<rparr>), w)
             else if timeout \<le> 0 then
               (Some (b\<lparr>errorMsg := ''timeout must be greater than 0''\<rparr>), w)
             else
               (case Definition b of
                  None \<Rightarrow> (builder, w)
                | Some d \<Rightarrow>
                    let plan = \<lparr>Actions = actions,
                                RolloutStrategy = \<lparr>MaxConcurrency = maxConcurrency,
                                                    Timeout = timeout\<rparr>\<rparr>;
                        def = heap w d
                    in (builder,
                        w\<lparr>heap := (heap w)(d :=
                             def\<lparr>Spec := (Spec def)\<lparr>Plan := Plan (Spec def) @ [plan]\<rparr>\<rparr>)\<rparr>))))"

text \<open>
  \<^verbatim>\<open>Create\<close> returns the builder and the error. The client's create call is given the
  object behind \<^verbatim>\<open>Definition\<close> and may write into it. On success \<^verbatim>\<open>Object\<close> becomes
  the same pointer as \<^verbatim>\<open>Definition\<close>.
\<close>

definition Create :: "IbguBuilder option \<Rightarrow> world \<Rightarrow> (IbguBuilder option \<times> error option) \<times> world" where
  "Create builder w =
     (case validate builder of
        (False, err) \<Rightarrow> ((builder, err), w)
      | (True, _) \<Rightarrow>
          (case Exists builder w of
             (True, builder', w') \<Rightarrow> ((builder', None), w')
           | (False, builder', w') \<Rightarrow>
               (case builder' of
                  None \<Rightarrow> ((builder', None), w')
                | Some b \<Rightarrow>
                    (case (Definition b, apiClient b) of
                       (Some d, Some c) \<Rightarrow>
                         (case clientCreate c (trace w') (heap w' d) of
                            (err, written) \<Rightarrow>
                              let w'' = w'\<lparr>heap := (heap w')(d := written),
                                           trace := trace w' @ [EvCreate (heap w' d) err]\<rparr>
                              in if err = None then ((Some (b\<lparr>Object := Definition b\<rparr>), err), w'')
                                 else ((Some b, err), w''))
                     | _ \<Rightarrow> ((builder', None), w')))))"

text \<open>
  \<^verbatim>\<open>Delete\<close> returns the error, the builder after the call and the world after the
  call. The client's delete call receives \<^verbatim>\<open>builder.Object\<close> as \<^verbatim>\<open>Exists\<close> left it.
\<close>

definition Delete :: "IbguBuilder option \<Rightarrow> world \<Rightarrow> error option \<times> IbguBuilder option \<times> world" where
  "Delete builder w =
     (case validate builder of
        (False, err) \<Rightarrow> (err, builder, w)
      | (True, _) \<Rightarrow>
          (case Exists builder w of
             (False, builder', w') \<Rightarrow> (None, map_option (\<lambda>b. b\<lparr>Object := None\<rparr>) builder', w')
           | (True, builder', w') \<Rightarrow>
               (case builder' of
                  None \<Rightarrow> (None, builder', w')
                | Some b \<Rightarrow>
                    (case apiClient b of
                       None \<Rightarrow> (None, builder', w')
                     | Some c \<Rightarrow>
                         let arg = map_option (heap w') (Object b);
                             err = clientDelete c (trace w') arg;
                             w'' = w'\<lparr>trace := trace w' @ [EvDelete arg err]\<rparr>
                         in (case err of
                               Some e \<Rightarrow> (Some e, Some b, w'')
                             | None \<Rightarrow> (None, Some (b\<lparr>Object := None\<rparr>), w''))))))"

section \<open>NodeConfigBuilder\<close>

record NodeConfigBuilder =
  Objects :: "addr option"
  apiClient_nc :: "Settings option"
  nodeName :: string
  nsName :: string
  errorMsg_nc :: string

text \<open>
  \<^verbatim>\<open>NewNodeConfigBuilder\<close>: two independent checks in sequence, neither of which
  returns, so the second assignment overwrites the first.
\<close>

definition NewNodeConfigBuilder ::
  "Settings option \<Rightarrow> string \<Rightarrow> string \<Rightarrow> NodeConfigBuilder" where
  "NewNodeConfigBuilder apiClient' nodeName' nsname =
     (let builder0 = \<lparr>Objects = None, apiClient_nc = apiClient', nodeName = nodeName',
                      nsName = nsname, errorMsg_nc = []\<rparr>;
          builder1 = (if nodeName' = [] then
                        builder0\<lparr>errorMsg_nc := ''SriovFecNodeConfig 'nodeName' is empty''\<rparr>
                      else builder0);
          builder2 = (if nsname = [] then
                        builder1\<lparr>errorMsg_nc := ''SriovFecNodeConfig 'nsname' is empty''\<rparr>
                      else builder1)
      in builder2)"


section \<open>SR-IOV network node policies: listing and cleanup\<close>

text \<open>
  A policy is known here by its metadata; \<open>ResourceName_p\<close> stands for its
  specification. The list options are passed through to the client untouched.
\<close>

record SriovNetworkNodePolicy =
  ObjectMeta_p :: ObjectMeta
  ResourceName_p :: string

record ListOptions =
  LabelSelector_opt :: string
  FieldSelector_opt :: string

text \<open>
  The calls that leave \<^verbatim>\<open>list.go\<close>: the list request of the typed client, and
  \<^verbatim>\<open>PolicyBuilder.Delete\<close>, a method whose body is not part of the sources. Both are
  recorded in the trace with their answers.
\<close>

datatype event_p =
    EvList string ListOptions "error + SriovNetworkNodePolicy list"
  | EvPolicyDelete SriovNetworkNodePolicy "error option"

record world_p =
  heap_p :: "addr \<Rightarrow> SriovNetworkNodePolicy"
  nxt_p :: addr
  trace_p :: "event_p list"

text \<open>
  The part of \<^verbatim>\<open>clients.Settings\<close> that \<^verbatim>\<open>list.go\<close> uses:
  \<^verbatim>\<open>SriovNetworkNodePolicies(nsname).List(ctx, options)\<close>, whose answer is any function of
  the trace, the namespace and the options.
\<close>

record Settings_p =
  SriovNetworkNodePolicies :: "event_p list \<Rightarrow> string \<Rightarrow> ListOptions \<Rightarrow>
                                 error + SriovNetworkNodePolicy list"

record PolicyBuilder =
  apiClient_p :: "Settings_p option"
  Object_p :: "addr option"
  Definition_p :: "addr option"

text \<open>
  A call either returns or panics (a nil pointer dereference).
\<close>

datatype 'a outcome = Panic | Return 'a

text \<open>
  The loop of \<^verbatim>\<open>ListPolicy\<close>. The iteration variable \<^verbatim>\<open>policy\<close> is a cell at address
  \<open>policy\<close> that every iteration overwrites with the next item (one variable for the
  whole loop, as in Go before 1.22; a variable per iteration can only alias less).
  \<^verbatim>\<open>copiedNetworkNodePolicy := policy\<close> declares a new variable, which escapes through
  \<^verbatim>\<open>&copiedNetworkNodePolicy\<close> and so takes a fresh address holding a copy of the cell.
\<close>

fun ListPolicy_loop ::
  "Settings_p option \<Rightarrow> addr \<Rightarrow> SriovNetworkNodePolicy list \<Rightarrow> PolicyBuilder list \<Rightarrow> world_p
     \<Rightarrow> PolicyBuilder list \<times> world_p" where
  "ListPolicy_loop apiClient' policy [] networkNodePolicyObjects w =
     (networkNodePolicyObjects, w)"
| "ListPolicy_loop apiClient' policy (item # items) networkNodePolicyObjects w =
     (let w1 = w\<lparr>heap_p := (heap_p w)(policy := item)\<rparr>;
          copiedNetworkNodePolicy = nxt_p w1;
          w2 = w1\<lparr>heap_p := (heap_p w1)(copiedNetworkNodePolicy := heap_p w1 policy),
                 nxt_p := Suc (nxt_p w1)\<rparr>;
          policyBuilder = \<lparr>apiClient_p = apiClient',
                           Object_p = Some copiedNetworkNodePolicy,
                           Definition_p = Some copiedNetworkNodePolicy\<rparr>
      in ListPolicy_loop apiClient' policy items (networkNodePolicyObjects @ [policyBuilder]) w2)"

text \<open>
  \<^verbatim>\<open>ListPolicy\<close> returns \<open>Inl err\<close> for \<^verbatim>\<open>(nil, err)\<close> and \<open>Inr builders\<close> for
  \<^verbatim>\<open>(builders, nil)\<close>. The namespace is checked before the client is touched; calling
  a method of the embedded client through a nil \<^verbatim>\<open>*clients.Settings\<close> panics.
\<close>

definition ListPolicy ::
  "Settings_p option \<Rightarrow> string \<Rightarrow> ListOptions \<Rightarrow> world_p
     \<Rightarrow> (error + PolicyBuilder list) outcome \<times> world_p" where
  "ListPolicy apiClient' nsname options w =
     (if nsname = [] then
        (Return (Inl (Errorf
           ''failed to list SriovNetworkNodePolicies, 'nsname' parameter is empty'')), w)
      else
        (case apiClient' of
           None \<Rightarrow> (Panic, w)
         | Some s \<Rightarrow>
             let resp = SriovNetworkNodePolicies s (trace_p w) nsname options;
                 w1 = w\<lparr>trace_p := trace_p w @ [EvList nsname options resp]\<rparr>
             in (case resp of
                   Inl err \<Rightarrow> (Return (Inl err), w1)
                 | Inr networkNodePoliciesList \<Rightarrow>
                     let policy = nxt_p w1;
                         w2 = w1\<lparr>nxt_p := Suc (nxt_p w1)\<rparr>
                     in (case ListPolicy_loop apiClient' policy networkNodePoliciesList [] w2 of
                           (networkNodePolicyObjects, w3) \<Rightarrow>
                             (Return (Inr networkNodePolicyObjects), w3)))))"

text \<open>
  \<^verbatim>\<open>PolicyBuilder.Delete\<close> is taken as given: \<open>Delete_p\<close> answers, from the trace so far
  and the policy behind the builder's \<^verbatim>\<open>Object\<close>, with the error it returns and whether
  it has left the builder's \<^verbatim>\<open>Object\<close> nil.

  The loop of \<^verbatim>\<open>CleanAllNetworkNodePolicies\<close> reads \<^verbatim>\<open>policy.Object.Name\<close> twice: in
  the test against "default", and again as an argument of the log call after a failed
  deletion. Either read panics when \<^verbatim>\<open>Object\<close> is nil.
\<close>

type_synonym Delete_p = "event_p list \<Rightarrow> SriovNetworkNodePolicy \<Rightarrow> error option \<times> bool"

fun Clean_loop ::
  "Delete_p \<Rightarrow> PolicyBuilder list \<Rightarrow> world_p \<Rightarrow> error option outcome \<times> world_p" where
  "Clean_loop Delete' [] w = (Return None, w)"
| "Clean_loop Delete' (policy # policies) w =
     (case Object_p policy of
        None \<Rightarrow> (Panic, w)
      | Some obj \<Rightarrow>
          if Name (ObjectMeta_p (heap_p w obj)) \<noteq> ''default'' then
            (case Delete' (trace_p w) (heap_p w obj) of
               (err, objectNil) \<Rightarrow>
                 let w' = w\<lparr>trace_p := trace_p w @ [EvPolicyDelete (heap_p w obj) err]\<rparr>
                 in (case err of
                       Some e \<Rightarrow> if objectNil then (Panic, w') else (Return (Some e), w')
                     | None \<Rightarrow> Clean_loop Delete' policies w'))
          else Clean_loop Delete' policies w)"

definition CleanAllNetworkNodePolicies ::
  "Delete_p \<Rightarrow> Settings_p option \<Rightarrow> string \<Rightarrow> ListOptions \<Rightarrow> world_p
     \<Rightarrow> error option outcome \<times> world_p" where
  "CleanAllNetworkNodePolicies Delete' apiClient' operatornsname options w =
     (if operatornsname = [] then
        (Return (Some (Errorf
           ''failed to clean up SriovNetworkNodePolicies, 'operatornsname' parameter is empty'')),
         w)
      else
        (case ListPolicy apiClient' operatornsname options w of
           (Panic, w') \<Rightarrow> (Panic, w')
         | (Return (Inl err), w') \<Rightarrow> (Return (Some err), w')
         | (Return (Inr policies), w') \<Rightarrow> Clean_loop Delete' policies w'))"


section \<open>The lifetime of an IbguBuilder\<close>

text \<open>
  After its construction a builder receives calls of its methods in any order. \<open>run\<close>
  runs one of them on the builder behind the pointer and keeps the builder and the
  world it leaves; \<open>runAll\<close> runs a sequence.
\<close>

datatype call =
    CallWithClusterLabelSelectors "(string \<times> string) list"
  | CallWithSeedImageRef string string
  | CallWithOadpContent string string
  | CallWithPlan "string list" int int
  | CallGet
  | CallExists
  | CallCreate
  | CallDelete

fun run :: "call \<Rightarrow> IbguBuilder option \<Rightarrow> world \<Rightarrow> IbguBuilder option \<times> world" where
  "run (CallWithClusterLabelSelectors labels) builder w =
     WithClusterLabelSelectors builder labels w"
| "run (CallWithSeedImageRef seedImage seedVersion) builder w =
     WithSeedImageRef builder seedImage seedVersion w"
| "run (CallWithOadpContent name namespace) builder w =
     WithOadpContent builder name namespace w"
| "run (CallWithPlan actions maxConcurrency timeout) builder w =
     WithPlan builder actions maxConcurrency timeout w"
| "run CallGet builder w = (builder, snd (Get builder w))"
| "run CallExists builder w = snd (Exists builder w)"
| "run CallCreate builder w = (fst (fst (Create builder w)), snd (Create builder w))"
| "run CallDelete builder w = snd (Delete builder w)"

fun runAll :: "call list \<Rightarrow> IbguBuilder option \<Rightarrow> world \<Rightarrow> IbguBuilder option \<times> world" where
  "runAll [] builder w = (builder, w)"
| "runAll (c # cs) builder w =
     (case run c builder w of (builder', w') \<Rightarrow> runAll cs builder' w')"

text \<open>
  The invariant in the words of the specification: exactly one of "\<^verbatim>\<open>Object\<close> is nil"
  and "\<^verbatim>\<open>Object\<close> reflects the most recent successful cluster read" holds. The most
  recent successful read is the last lookup in the trace that was answered with a
  resource.
\<close>

fun lastRead :: "event list \<Rightarrow> ImageBasedGroupUpgrade option" where
  "lastRead [] = None"
| "lastRead (ev # evs) =
     (case lastRead evs of
        Some v \<Rightarrow> Some v
      | None \<Rightarrow> (case ev of EvGet key (Inr v) \<Rightarrow> Some v | _ \<Rightarrow> None))"

definition spec_reflects_last_read :: "IbguBuilder \<Rightarrow> world \<Rightarrow> bool" where
  "spec_reflects_last_read b w =
     (case Object b of None \<Rightarrow> False | Some a \<Rightarrow> lastRead (trace w) = Some (heap w a))"

definition spec_Object_invariant :: "IbguBuilder option \<Rightarrow> world \<Rightarrow> bool" where
  "spec_Object_invariant builder w =
     (case builder of
        None \<Rightarrow> True
      | Some b \<Rightarrow> (Object b = None) \<noteq> spec_reflects_last_read b w)"

text \<open>
  What the operations do keep: both pointers of the builder are allocated, and
  \<^verbatim>\<open>Object\<close> is nil, or is the \<^verbatim>\<open>Definition\<close> pointer itself, or points at an object
  that holds the answer of some successful lookup of the trace.
\<close>

fun readResults :: "event list \<Rightarrow> ImageBasedGroupUpgrade list" where
  "readResults [] = []"
| "readResults (EvGet key (Inr v) # evs) = v # readResults evs"
| "readResults (ev # evs) = readResults evs"

definition Object_invariant :: "IbguBuilder option \<Rightarrow> world \<Rightarrow> bool" where
  "Object_invariant builder w =
     (case builder of
        None \<Rightarrow> True
      | Some b \<Rightarrow>
          (case Definition b of None \<Rightarrow> True | Some d \<Rightarrow> d < nxt w) \<and>
          (case Object b of
             None \<Rightarrow> True
           | Some a \<Rightarrow>
               a < nxt w \<and>
               (Object b = Definition b \<or> heap w a \<in> set (readResults (trace w)))))"

section \<open>Example clusters\<close>

text \<open>
  Concrete clients and worlds at which the theorems below are instantiated.
  \<open>memClient\<close> is an in-memory cluster: it replays the successful create and delete
  requests of the trace over an initial store, answers lookups from the result, and
  stamps a resource version on what it creates. \<open>failingClient\<close> refuses every request
  with one error; \<open>readOnlyClient\<close> knows one resource and refuses every change;
  \<open>driftingClient\<close> serves a resource whose version grows with every request.
\<close>

definition stamped :: "string \<Rightarrow> ImageBasedGroupUpgrade \<Rightarrow> ImageBasedGroupUpgrade" where
  "stamped version obj = obj\<lparr>ObjectMeta := (ObjectMeta obj)\<lparr>ResourceVersion := version\<rparr>\<rparr>"

fun replay ::
  "event list \<Rightarrow> (ObjectKey \<Rightarrow> ImageBasedGroupUpgrade option)
     \<Rightarrow> (ObjectKey \<Rightarrow> ImageBasedGroupUpgrade option)" where
  "replay [] store = store"
| "replay (EvCreate obj None # evs) store =
     replay evs (store(keyOf obj := Some (stamped ''1'' obj)))"
| "replay (EvDelete (Some obj) None # evs) store = replay evs (store(keyOf obj := None))"
| "replay (ev # evs) store = replay evs store"

definition notFound :: error where
  "notFound = StatusError StatusReasonNotFound ''not found''"

definition forbidden :: error where
  "forbidden = StatusError StatusReasonForbidden ''forbidden''"

definition memClient :: "(ObjectKey \<Rightarrow> ImageBasedGroupUpgrade option) \<Rightarrow> Client" where
  "memClient initial =
     \<lparr>clientGet = (\<lambda>tr key.
        case replay tr initial key of None \<Rightarrow> Inl notFound | Some obj \<Rightarrow> Inr obj),
      clientCreate = (\<lambda>tr obj.
        case replay tr initial (keyOf obj) of
          None \<Rightarrow> (None, stamped ''1'' obj)
        | Some old \<Rightarrow> (Some (StatusError StatusReasonAlreadyExists ''already exists''), obj)),
      clientDelete = (\<lambda>tr obj.
        case obj of
          None \<Rightarrow> Some (Errorf ''nil object'')
        | Some ob \<Rightarrow>
            (case replay tr initial (keyOf ob) of None \<Rightarrow> Some notFound | Some old \<Rightarrow> None))\<rparr>"

definition failingClient :: "error \<Rightarrow> Client" where
  "failingClient e =
     \<lparr>clientGet = (\<lambda>tr key. Inl e),
      clientCreate = (\<lambda>tr obj. (Some e, obj)),
      clientDelete = (\<lambda>tr obj. Some e)\<rparr>"

definition readOnlyClient :: "ImageBasedGroupUpgrade \<Rightarrow> error \<Rightarrow> Client" where
  "readOnlyClient v e =
     \<lparr>clientGet = (\<lambda>tr key. Inr v),
      clientCreate = (\<lambda>tr obj. (Some e, obj)),
      clientDelete = (\<lambda>tr obj. Some e)\<rparr>"

definition driftingClient :: "ImageBasedGroupUpgrade \<Rightarrow> Client" where
  "driftingClient v =
     \<lparr>clientGet = (\<lambda>tr key. Inr (stamped (replicate (length tr) CHR ''i'') v)),
      clientCreate = (\<lambda>tr obj. (None, obj)),
      clientDelete = (\<lambda>tr obj. None)\<rparr>"

definition upgrade :: ImageBasedGroupUpgrade where
  "upgrade =
     \<lparr>ObjectMeta = \<lparr>Name = ''upgrade'', Namespace = ''ztp'', ResourceVersion = []\<rparr>,
      Spec = \<lparr>IBUSpec = \<lparr>SeedImageRef = \<lparr>Image_ref = [], Version = []\<rparr>, OADPContent = []\<rparr>,
              ClusterLabelSelectors = [], Plan = []\<rparr>\<rparr>"

text \<open>
  The world and the builder that \<^verbatim>\<open>NewIbguBuilder(client, "upgrade", "ztp")\<close> leaves
  when it starts from an empty heap.
\<close>

definition world1 :: world where
  "world1 = \<lparr>heap = (\<lambda>a. zeroIbgu)(0 := upgrade), nxt = 1, trace = []\<rparr>"

definition builder1 :: "Client \<Rightarrow> IbguBuilder" where
  "builder1 c = \<lparr>Definition = Some 0, Object = None, apiClient = Some c, errorMsg = []\<rparr>"

text \<open>
  A world with an empty heap; a store that already holds the resource; and two builders
  whose deferred-error slot is set while a structural check of \<^verbatim>\<open>validate\<close> fails
  first: \<open>orphanBuilder\<close> has no client (it is what \<^verbatim>\<open>NewIbguBuilder\<close> returns for an
  empty name and settings without a client), \<open>undefinedBuilder\<close> has had its exported
  \<^verbatim>\<open>Definition\<close> field set to nil.
\<close>

definition world0 :: world where
  "world0 = \<lparr>heap = (\<lambda>a. zeroIbgu), nxt = 0, trace = []\<rparr>"

definition present :: "ObjectKey \<Rightarrow> ImageBasedGroupUpgrade option" where
  "present = Map.empty(keyOf upgrade := Some upgrade)"

definition orphanBuilder :: IbguBuilder where
  "orphanBuilder =
     \<lparr>Definition = Some 0, Object = None, apiClient = None,
      errorMsg = ''ibgu 'name' cannot be empty''\<rparr>"

definition undefinedBuilder :: "Client \<Rightarrow> IbguBuilder" where
  "undefinedBuilder c =
     \<lparr>Definition = None, Object = None, apiClient = Some c,
      errorMsg = ''ibgu 'name' cannot be empty''\<rparr>"

section \<open>Listing and cleanup: vocabulary and examples\<close>

text \<open>
  \<open>builderAt\<close> is the builder that one iteration of \<^verbatim>\<open>ListPolicy\<close> appends: both
  pointers at the copy it has just made. \<open>notDefault\<close> is the test of the cleanup loop,
  and \<open>deleted p\<close> the trace entry of a deletion of \<open>p\<close> that succeeded.
\<close>

definition builderAt :: "Settings_p option \<Rightarrow> addr \<Rightarrow> PolicyBuilder" where
  "builderAt cl a = \<lparr>apiClient_p = cl, Object_p = Some a, Definition_p = Some a\<rparr>"

definition notDefault :: "SriovNetworkNodePolicy \<Rightarrow> bool" where
  "notDefault p = (Name (ObjectMeta_p p) \<noteq> ''default'')"

definition deleted :: "SriovNetworkNodePolicy \<Rightarrow> event_p" where
  "deleted p = EvPolicyDelete p None"

text \<open>
  A client that lists three policies, "default", "a" and "b", in that order; an empty
  world; a \<^verbatim>\<open>Delete\<close> that always succeeds and clears \<^verbatim>\<open>Object\<close>; and one that fails on
  the policy of a given name and leaves \<^verbatim>\<open>Object\<close> in place.
\<close>

definition policyNamed :: "string \<Rightarrow> SriovNetworkNodePolicy" where
  "policyNamed n =
     \<lparr>ObjectMeta_p = \<lparr>Name = n, Namespace = ''sriov-operator'', ResourceVersion = []\<rparr>,
      ResourceName_p = []\<rparr>"

definition threePolicies :: Settings_p where
  "threePolicies =
     \<lparr>SriovNetworkNodePolicies =
        (\<lambda>tr nsname options. Inr [policyNamed ''default'', policyNamed ''a'', policyNamed ''b''])\<rparr>"

definition noOptions :: ListOptions where
  "noOptions = \<lparr>LabelSelector_opt = [], FieldSelector_opt = []\<rparr>"

definition world_p0 :: world_p where
  "world_p0 = \<lparr>heap_p = (\<lambda>a. policyNamed []), nxt_p = 0, trace_p = []\<rparr>"

definition deleteSucceeds :: Delete_p where
  "deleteSucceeds = (\<lambda>tr p. (None, True))"

definition deleteFailsOn :: "string \<Rightarrow> error \<Rightarrow> Delete_p" where
  "deleteFailsOn n e = (\<lambda>tr p. if Name (ObjectMeta_p p) = n then (Some e, False) else (None, True))"

section \<open>Validation, lookup and existence\<close>

lemma validate_passes_iff:
  "fst (validate builder) \<longleftrightarrow>
     (\<exists>b d c. builder = Some b \<and> Definition b = Some d \<and> apiClient b = Some c \<and> errorMsg b = [])"
  by (auto simp: validate_def split: option.splits)

lemma validate_valid:
  "Definition b = Some d \<Longrightarrow> apiClient b = Some c \<Longrightarrow> errorMsg b = [] \<Longrightarrow>
     validate (Some b) = (True, None)"
  by (simp add: validate_def)

lemma validate_deferred:
  "Definition b = Some d \<Longrightarrow> apiClient b = Some c \<Longrightarrow> errorMsg b \<noteq> [] \<Longrightarrow>
     validate (Some b) = (False, Some (Errorf (errorMsg b)))"
  by (simp add: validate_def)

lemma Get_valid:
  assumes "Definition b = Some d" "apiClient b = Some c" "errorMsg b = []"
  shows "Get (Some b) w =
     (let key = \<lparr>keyName = Name (ObjectMeta (heap w d)),
                 keyNamespace = Namespace (ObjectMeta (heap w d))\<rparr>;
          resp = clientGet c (trace w) key
      in (case resp of
            Inl err \<Rightarrow>
              ((None, Some err),
               w\<lparr>heap := (heap w)(nxt w := zeroIbgu), nxt := Suc (nxt w),
                 trace := trace w @ [EvGet key resp]\<rparr>)
          | Inr v \<Rightarrow>
              ((Some (nxt w), None),
               w\<lparr>heap := (heap w)(nxt w := v), nxt := Suc (nxt w),
                 trace := trace w @ [EvGet key resp]\<rparr>)))"
  using assms by (simp add: Get_def validate_valid Let_def split: sum.splits)

lemma Get_invalid:
  "\<not> fst (validate builder) \<Longrightarrow> Get builder w = ((None, snd (validate builder)), w)"
  by (cases "validate builder") (simp add: Get_def)

lemma Exists_valid:
  assumes "Definition b = Some d" "apiClient b = Some c" "errorMsg b = []"
  shows "Exists (Some b) w =
     (let key = \<lparr>keyName = Name (ObjectMeta (heap w d)),
                 keyNamespace = Namespace (ObjectMeta (heap w d))\<rparr>;
          resp = clientGet c (trace w) key
      in (case resp of
            Inl err \<Rightarrow>
              (\<not> IsNotFound err, Some (b\<lparr>Object := None\<rparr>),
               w\<lparr>heap := (heap w)(nxt w := zeroIbgu), nxt := Suc (nxt w),
                 trace := trace w @ [EvGet key resp]\<rparr>)
          | Inr v \<Rightarrow>
              (True, Some (b\<lparr>Object := Some (nxt w)\<rparr>),
               w\<lparr>heap := (heap w)(nxt w := v), nxt := Suc (nxt w),
                 trace := trace w @ [EvGet key resp]\<rparr>)))"
  using assms by (simp add: Exists_def Get_valid validate_valid Let_def split: sum.splits)

lemma Exists_invalid:
  "\<not> fst (validate builder) \<Longrightarrow> Exists builder w = (False, builder, w)"
  by (simp add: Exists_def)

text \<open>
  Claim C1. For every builder that passes validation, \<^verbatim>\<open>Exists\<close> invokes \<^verbatim>\<open>Get\<close> (one
  lookup request, for the name and namespace of the definition), stores what \<^verbatim>\<open>Get\<close>
  returns in \<^verbatim>\<open>Object\<close> (the pointer to the fetched object on success, nil on error),
  and returns true exactly when the error of \<^verbatim>\<open>Get\<close> is nil or is not a not-found
  error; so it returns true when the lookup fails with any other error. For a builder
  that fails validation it returns false and touches nothing.
\<close>

theorem Exists_stores_what_Get_returns:
  "(fst (validate builder) \<longrightarrow>
      (\<exists>b d c. builder = Some b \<and> Definition b = Some d \<and> apiClient b = Some c \<and>
         (let key = \<lparr>keyName = Name (ObjectMeta (heap w d)),
                     keyNamespace = Namespace (ObjectMeta (heap w d))\<rparr>;
              resp = clientGet c (trace w) key
          in (case Get builder w of
                ((obj, err), w') \<Rightarrow>
                  Exists builder w =
                    ((case err of None \<Rightarrow> True | Some e \<Rightarrow> \<not> IsNotFound e),
                     Some (b\<lparr>Object := obj\<rparr>), w') \<and>
                  trace w' = trace w @ [EvGet key resp] \<and>
                  (case resp of
                     Inr v \<Rightarrow> obj = Some (nxt w) \<and> heap w' (nxt w) = v \<and> err = None
                   | Inl e \<Rightarrow> obj = None \<and> err = Some e)) \<and>
             (fst (Exists builder w) \<longleftrightarrow>
                (case resp of Inr v \<Rightarrow> True | Inl e \<Rightarrow> \<not> IsNotFound e))))) \<and>
   (\<not> fst (validate builder) \<longrightarrow> Exists builder w = (False, builder, w))"
proof (intro conjI impI)
  assume "fst (validate builder)"
  then obtain b d c where
    b: "builder = Some b" "Definition b = Some d" "apiClient b = Some c" "errorMsg b = []"
    unfolding validate_passes_iff by blast
  show "\<exists>b d c. builder = Some b \<and> Definition b = Some d \<and> apiClient b = Some c \<and>
         (let key = \<lparr>keyName = Name (ObjectMeta (heap w d)),
                     keyNamespace = Namespace (ObjectMeta (heap w d))\<rparr>;
              resp = clientGet c (trace w) key
          in (case Get builder w of
                ((obj, err), w') \<Rightarrow>
                  Exists builder w =
                    ((case err of None \<Rightarrow> True | Some e \<Rightarrow> \<not> IsNotFound e),
                     Some (b\<lparr>Object := obj\<rparr>), w') \<and>
                  trace w' = trace w @ [EvGet key resp] \<and>
                  (case resp of
                     Inr v \<Rightarrow> obj = Some (nxt w) \<and> heap w' (nxt w) = v \<and> err = None
                   | Inl e \<Rightarrow> obj = None \<and> err = Some e)) \<and>
             (fst (Exists builder w) \<longleftrightarrow>
                (case resp of Inr v \<Rightarrow> True | Inl e \<Rightarrow> \<not> IsNotFound e)))"
    using b
    by (intro exI [of _ b] exI [of _ d] exI [of _ c])
       (simp add: Exists_valid [OF b(2-4)] Get_valid [OF b(2-4)] Let_def split: sum.splits)
next
  assume "\<not> fst (validate builder)"
  then show "Exists builder w = (False, builder, w)" by (rule Exists_invalid)
qed

theorem Exists_stores_what_Get_returns_witness:
  "fst (validate (Some (builder1 (memClient Map.empty)))) \<and>
   Exists (Some (builder1 (memClient Map.empty))) world1 =
     (False, Some (builder1 (memClient Map.empty)),
      world1\<lparr>heap := (heap world1)(1 := zeroIbgu), nxt := 2,
             trace := [EvGet \<lparr>keyName = ''upgrade'', keyNamespace = ''ztp''\<rparr> (Inl notFound)]\<rparr>) \<and>
   fst (Exists (Some (builder1 (failingClient forbidden))) world1) \<and>
   \<not> fst (validate None) \<and> Exists None world1 = (False, None, world1)"
  using Exists_stores_what_Get_returns [of "Some (builder1 (memClient Map.empty))" world1]
        Exists_stores_what_Get_returns [of "Some (builder1 (failingClient forbidden))" world1]
        Exists_stores_what_Get_returns [of None world1]
  by (simp add: validate_def builder1_def world1_def memClient_def failingClient_def
        upgrade_def notFound_def forbidden_def Get_def Let_def)





section \<open>The deferred error and the constructor\<close>

lemma With_invalid:
  assumes "\<not> fst (validate builder)"
  shows "WithClusterLabelSelectors builder labels w = (builder, w)"
    and "WithSeedImageRef builder seedImage seedVersion w = (builder, w)"
    and "WithOadpContent builder name namespace w = (builder, w)"
    and "WithPlan builder actions maxConcurrency timeout w = (builder, w)"
  using assms
  by (simp_all add: WithClusterLabelSelectors_def WithSeedImageRef_def WithOadpContent_def
        WithPlan_def)

lemma Create_invalid:
  "\<not> fst (validate builder) \<Longrightarrow> Create builder w = ((builder, snd (validate builder)), w)"
  by (cases "validate builder") (simp add: Create_def)

lemma Delete_invalid:
  "\<not> fst (validate builder) \<Longrightarrow> Delete builder w = (snd (validate builder), builder, w)"
  by (cases "validate builder") (simp add: Delete_def)

text \<open>
  Claim C2, as stated, fails: a non-empty deferred-error slot does not by itself make the
  terminal operations return the error built from it. \<^verbatim>\<open>validate\<close> checks the definition
  and the client before the slot, so a builder whose slot is set but whose client (or
  definition) is nil gets the error of that earlier check from \<^verbatim>\<open>Get\<close>.
\<close>

theorem deferred_error_not_always_returned:
  "fst (NewIbguBuilder (Some \<lparr>Client = None, AttachScheme = None\<rparr>) [] ''ztp'' world0)
     = Some orphanBuilder \<and>
   errorMsg orphanBuilder \<noteq> [] \<and>
   snd (fst (Get (Some orphanBuilder) world1))
     = Some (Errorf ''ibgu builder cannot have nil apiClient'') \<and>
   snd (fst (Get (Some orphanBuilder) world1)) \<noteq> Some (Errorf (errorMsg orphanBuilder)) \<and>
   errorMsg (undefinedBuilder (memClient Map.empty)) \<noteq> [] \<and>
   snd (fst (Get (Some (undefinedBuilder (memClient Map.empty))) world1))
     \<noteq> Some (Errorf (errorMsg (undefinedBuilder (memClient Map.empty))))"
  by (simp add: NewIbguBuilder_def orphanBuilder_def undefinedBuilder_def world0_def Get_def
        validate_def Let_def)

text \<open>
  Claim C2, amended. For every builder with a non-nil definition and a non-nil client
  whose deferred-error slot is non-empty: each configuration call returns the builder
  as it was, and \<^verbatim>\<open>Get\<close>, \<^verbatim>\<open>Create\<close> and \<^verbatim>\<open>Delete\<close> return the error built from the
  slot; the world is the same afterwards, so the object behind \<^verbatim>\<open>Definition\<close> is not
  changed and no request reaches the client.
\<close>

theorem deferred_error_short_circuits:
  assumes "errorMsg b \<noteq> []" and "Definition b = Some d" and "apiClient b = Some c"
  shows "WithClusterLabelSelectors (Some b) labels w = (Some b, w) \<and>
         WithSeedImageRef (Some b) seedImage seedVersion w = (Some b, w) \<and>
         WithOadpContent (Some b) name namespace w = (Some b, w) \<and>
         WithPlan (Some b) actions maxConcurrency timeout w = (Some b, w) \<and>
         Get (Some b) w = ((None, Some (Errorf (errorMsg b))), w) \<and>
         Create (Some b) w = ((Some b, Some (Errorf (errorMsg b))), w) \<and>
         Delete (Some b) w = (Some (Errorf (errorMsg b)), Some b, w)"
proof -
  have v: "validate (Some b) = (False, Some (Errorf (errorMsg b)))"
    using assms by (simp add: validate_deferred)
  then have nv: "\<not> fst (validate (Some b))" by simp
  show ?thesis
    using With_invalid [OF nv] Get_invalid [OF nv] Create_invalid [OF nv] Delete_invalid [OF nv]
    by (simp add: v)
qed

theorem deferred_error_short_circuits_witness:
  "WithPlan (Some (builder1 (memClient Map.empty))) [] 1 1 world1
     = (Some ((builder1 (memClient Map.empty))\<lparr>errorMsg := ''plan actions cannot be empty''\<rparr>),
        world1) \<and>
   errorMsg ((builder1 (memClient Map.empty))\<lparr>errorMsg := ''plan actions cannot be empty''\<rparr>)
     \<noteq> [] \<and>
   WithPlan (Some ((builder1 (memClient Map.empty))\<lparr>errorMsg := ''plan actions cannot be empty''\<rparr>))
       [''Prep''] 1 1 world1
     = (Some ((builder1 (memClient Map.empty))\<lparr>errorMsg := ''plan actions cannot be empty''\<rparr>),
        world1) \<and>
   Create (Some ((builder1 (memClient Map.empty))\<lparr>errorMsg := ''plan actions cannot be empty''\<rparr>))
       world1
     = ((Some ((builder1 (memClient Map.empty))\<lparr>errorMsg := ''plan actions cannot be empty''\<rparr>),
         Some (Errorf ''plan actions cannot be empty'')), world1)"
  using deferred_error_short_circuits
          [of "(builder1 (memClient Map.empty))\<lparr>errorMsg := ''plan actions cannot be empty''\<rparr>"
              0 "memClient Map.empty" _ world1 _ _ _ _ "[''Prep'']" 1 1]
  by (simp add: builder1_def WithPlan_def validate_def)

text \<open>
  Claim C10. \<^verbatim>\<open>NewIbguBuilder\<close> returns nil, and allocates nothing, when the settings
  pointer is nil or attaching the scheme fails. Otherwise it returns a builder, and the
  deferred-error slot of that builder is set exactly when the name or the namespace is
  empty.
\<close>

theorem NewIbguBuilder_nil_or_deferred:
  "(apiClient' = None \<longrightarrow> NewIbguBuilder apiClient' name nsname w = (None, w)) \<and>
   (\<forall>s. apiClient' = Some s \<and> AttachScheme s \<noteq> None \<longrightarrow>
      NewIbguBuilder apiClient' name nsname w = (None, w)) \<and>
   (\<forall>s. apiClient' = Some s \<and> AttachScheme s = None \<longrightarrow>
      (\<exists>b. fst (NewIbguBuilder apiClient' name nsname w) = Some b \<and>
           (errorMsg b \<noteq> [] \<longleftrightarrow> name = [] \<or> nsname = []))) \<and>
   (\<forall>b. fst (NewIbguBuilder apiClient' name nsname w) = Some b \<and> errorMsg b \<noteq> [] \<longrightarrow>
      name = [] \<or> nsname = [])"
  by (auto simp: NewIbguBuilder_def Let_def split: option.splits)

theorem NewIbguBuilder_nil_or_deferred_witness:
  "NewIbguBuilder None ''upgrade'' ''ztp'' world0 = (None, world0) \<and>
   NewIbguBuilder (Some \<lparr>Client = Some (memClient Map.empty), AttachScheme = Some forbidden\<rparr>)
       ''upgrade'' ''ztp'' world0 = (None, world0) \<and>
   map_option errorMsg
     (fst (NewIbguBuilder (Some \<lparr>Client = Some (memClient Map.empty), AttachScheme = None\<rparr>)
        [] ''ztp'' world0)) = Some ''ibgu 'name' cannot be empty'' \<and>
   map_option errorMsg
     (fst (NewIbguBuilder (Some \<lparr>Client = Some (memClient Map.empty), AttachScheme = None\<rparr>)
        ''upgrade'' [] world0)) = Some ''ibgu 'nsname' cannot be empty'' \<and>
   NewIbguBuilder (Some \<lparr>Client = Some (memClient Map.empty), AttachScheme = None\<rparr>)
        ''upgrade'' ''ztp'' world0 = (Some (builder1 (memClient Map.empty)), world1)"
  using NewIbguBuilder_nil_or_deferred [of None "''upgrade''" "''ztp''" world0]
        NewIbguBuilder_nil_or_deferred
          [of "Some \<lparr>Client = Some (memClient Map.empty), AttachScheme = Some forbidden\<rparr>"
              "''upgrade''" "''ztp''" world0]
        NewIbguBuilder_nil_or_deferred
          [of "Some \<lparr>Client = Some (memClient Map.empty), AttachScheme = None\<rparr>"
              "[]" "''ztp''" world0]
  by (simp add: NewIbguBuilder_def Let_def builder1_def world1_def world0_def upgrade_def)

section \<open>Delete after a failed lookup\<close>

text \<open>
  Claim C8. When the lookup of a valid builder fails with an error that is not a
  not-found error, \<^verbatim>\<open>Exists\<close> leaves \<^verbatim>\<open>Object\<close> nil and returns true, so \<^verbatim>\<open>Delete\<close>
  goes past its existence check and calls the client's delete with a nil object: the
  trace ends with the lookup and a delete request whose object is \<open>None\<close>.
\<close>

theorem Delete_passes_nil_Object:
  assumes "Definition b = Some d" and "apiClient b = Some c" and "errorMsg b = []"
    and "clientGet c (trace w) (keyOf (heap w d)) = Inl e" and "\<not> IsNotFound e"
  shows "fst (Exists (Some b) w) \<and>
         map_option Object (fst (snd (Exists (Some b) w))) = Some None \<and>
         fst (Delete (Some b) w) = clientDelete c (trace w @ [EvGet (keyOf (heap w d)) (Inl e)]) None \<and>
         trace (snd (snd (Delete (Some b) w))) =
           trace w @ [EvGet (keyOf (heap w d)) (Inl e),
                      EvDelete None (clientDelete c (trace w @ [EvGet (keyOf (heap w d)) (Inl e)]) None)]"
  using assms
  by (simp add: Delete_def validate_valid Exists_valid [OF assms(1-3)] keyOf_def Let_def
        split: option.splits)

theorem Delete_passes_nil_Object_witness:
  "Definition (builder1 (failingClient forbidden)) = Some 0 \<and>
   apiClient (builder1 (failingClient forbidden)) = Some (failingClient forbidden) \<and>
   errorMsg (builder1 (failingClient forbidden)) = [] \<and>
   clientGet (failingClient forbidden) (trace world1) (keyOf (heap world1 0)) = Inl forbidden \<and>
   \<not> IsNotFound forbidden \<and>
   fst (Exists (Some (builder1 (failingClient forbidden))) world1) \<and>
   trace (snd (snd (Delete (Some (builder1 (failingClient forbidden))) world1))) =
     [EvGet \<lparr>keyName = ''upgrade'', keyNamespace = ''ztp''\<rparr> (Inl forbidden),
      EvDelete None (Some forbidden)]"
  using Delete_passes_nil_Object [of "builder1 (failingClient forbidden)" 0
          "failingClient forbidden" world1 forbidden]
  by (simp add: builder1_def failingClient_def world1_def forbidden_def keyOf_def upgrade_def)


section \<open>Create\<close>

lemma Create_absent:
  assumes "Definition b = Some d" "apiClient b = Some c" "errorMsg b = []"
    and "d < nxt w"
    and "clientGet c (trace w) (keyOf (heap w d)) = Inl e" and "IsNotFound e"
    and "clientCreate c (trace w @ [EvGet (keyOf (heap w d)) (Inl e)]) (heap w d) = (err, written)"
  shows "Create (Some b) w =
     ((Some (b\<lparr>Object := if err = None then Some d else None\<rparr>), err),
      w\<lparr>heap := (heap w)(nxt w := zeroIbgu, d := written), nxt := Suc (nxt w),
        trace := trace w @ [EvGet (keyOf (heap w d)) (Inl e), EvCreate (heap w d) err]\<rparr>)"
proof -
  have d: "d \<noteq> nxt w" using assms(4) by simp
  have "Exists (Some b) w =
      (False, Some (b\<lparr>Object := None\<rparr>),
       w\<lparr>heap := (heap w)(nxt w := zeroIbgu), nxt := Suc (nxt w),
         trace := trace w @ [EvGet (keyOf (heap w d)) (Inl e)]\<rparr>)"
    using assms(5,6) by (simp add: Exists_valid [OF assms(1-3)] keyOf_def)
  then show ?thesis
    using assms(1,2,7) d
    by (cases err) (simp_all add: Create_def validate_valid [OF assms(1-3)] Let_def)
qed

lemma Create_present:
  assumes "Definition b = Some d" "apiClient b = Some c" "errorMsg b = []"
    and "clientGet c (trace w) (keyOf (heap w d)) = Inr v"
  shows "Create (Some b) w =
     ((Some (b\<lparr>Object := Some (nxt w)\<rparr>), None),
      w\<lparr>heap := (heap w)(nxt w := v), nxt := Suc (nxt w),
        trace := trace w @ [EvGet (keyOf (heap w d)) (Inr v)]\<rparr>)"
proof -
  have "Exists (Some b) w =
      (True, Some (b\<lparr>Object := Some (nxt w)\<rparr>),
       w\<lparr>heap := (heap w)(nxt w := v), nxt := Suc (nxt w),
         trace := trace w @ [EvGet (keyOf (heap w d)) (Inr v)]\<rparr>)"
    using assms(4) by (simp add: Exists_valid [OF assms(1-3)] keyOf_def)
  then show ?thesis
    by (simp add: Create_def validate_valid [OF assms(1-3)])
qed

text \<open>
  Claim C3. A valid builder on a cluster where the lookup answers not-found: the first
  \<^verbatim>\<open>Create\<close> issues the lookup and then a create request carrying the definition; when
  that succeeds it returns no error and \<^verbatim>\<open>Object\<close> is the \<^verbatim>\<open>Definition\<close> pointer. When
  the cluster then answers the lookup with the resource, a second \<^verbatim>\<open>Create\<close> on the
  same builder issues that lookup only, no create request, and returns the builder with
  a nil error.
\<close>

theorem Create_twice_creates_once:
  assumes "Definition b = Some d" and "apiClient b = Some c" and "errorMsg b = []"
    and "d < nxt w"
    and "clientGet c (trace w) (keyOf (heap w d)) = Inl e" and "IsNotFound e"
    and "clientCreate c (trace w @ [EvGet (keyOf (heap w d)) (Inl e)]) (heap w d) = (None, written)"
    and "clientGet c (trace w @ [EvGet (keyOf (heap w d)) (Inl e), EvCreate (heap w d) None])
           (keyOf written) = Inr v"
  shows "\<exists>w1 w2.
           Create (Some b) w = ((Some (b\<lparr>Object := Definition b\<rparr>), None), w1) \<and>
           trace w1 = trace w @ [EvGet (keyOf (heap w d)) (Inl e), EvCreate (heap w d) None] \<and>
           heap w1 d = written \<and> nxt w1 = Suc (nxt w) \<and>
           Create (Some (b\<lparr>Object := Definition b\<rparr>)) w1 =
             ((Some (b\<lparr>Object := Some (nxt w1)\<rparr>), None), w2) \<and>
           trace w2 = trace w1 @ [EvGet (keyOf written) (Inr v)] \<and>
           heap w2 (nxt w1) = v \<and> heap w2 d = written"
proof -
  define w1 where
    "w1 = w\<lparr>heap := (heap w)(nxt w := zeroIbgu, d := written), nxt := Suc (nxt w),
            trace := trace w @ [EvGet (keyOf (heap w d)) (Inl e), EvCreate (heap w d) None]\<rparr>"
  define b1 where "b1 = b\<lparr>Object := Definition b\<rparr>"
  define w2 where
    "w2 = w1\<lparr>heap := (heap w1)(nxt w1 := v), nxt := Suc (nxt w1),
             trace := trace w1 @ [EvGet (keyOf (heap w1 d)) (Inr v)]\<rparr>"
  have first: "Create (Some b) w = ((Some b1, None), w1)"
    using Create_absent [OF assms(1-7)] by (simp add: w1_def b1_def assms(1))
  have w1: "trace w1 = trace w @ [EvGet (keyOf (heap w d)) (Inl e), EvCreate (heap w d) None]"
      "heap w1 d = written" "nxt w1 = Suc (nxt w)"
    by (simp_all add: w1_def)
  have b1: "Definition b1 = Some d" "apiClient b1 = Some c" "errorMsg b1 = []"
    using assms(1-3) by (simp_all add: b1_def)
  have "clientGet c (trace w1) (keyOf (heap w1 d)) = Inr v"
    using assms(8) by (simp add: w1)
  from Create_present [OF b1 this]
  have second: "Create (Some b1) w1 = ((Some (b\<lparr>Object := Some (nxt w1)\<rparr>), None), w2)"
    by (simp add: w2_def b1_def)
  have w2: "trace w2 = trace w1 @ [EvGet (keyOf written) (Inr v)]" "heap w2 (nxt w1) = v"
      "heap w2 d = written"
    using assms(4) by (simp_all add: w2_def w1)
  show ?thesis
    using first second w1 w2 unfolding b1_def by blast
qed

theorem Create_twice_creates_once_witness:
  "Definition (builder1 (memClient Map.empty)) = Some 0 \<and>
   errorMsg (builder1 (memClient Map.empty)) = [] \<and>
   0 < nxt world1 \<and>
   clientGet (memClient Map.empty) (trace world1) (keyOf (heap world1 0)) = Inl notFound \<and>
   IsNotFound notFound \<and>
   clientCreate (memClient Map.empty) (trace world1 @ [EvGet (keyOf (heap world1 0)) (Inl notFound)])
       (heap world1 0) = (None, stamped ''1'' upgrade) \<and>
   clientGet (memClient Map.empty)
       (trace world1 @ [EvGet (keyOf (heap world1 0)) (Inl notFound), EvCreate (heap world1 0) None])
       (keyOf (stamped ''1'' upgrade)) = Inr (stamped ''1'' upgrade) \<and>
   (\<exists>w1 w2.
      Create (Some (builder1 (memClient Map.empty))) world1 =
        ((Some ((builder1 (memClient Map.empty))\<lparr>Object := Some 0\<rparr>), None), w1) \<and>
      trace w1 = [EvGet (keyOf upgrade) (Inl notFound), EvCreate upgrade None] \<and>
      Create (Some ((builder1 (memClient Map.empty))\<lparr>Object := Some 0\<rparr>)) w1 =
        ((Some ((builder1 (memClient Map.empty))\<lparr>Object := Some 2\<rparr>), None), w2) \<and>
      trace w2 = [EvGet (keyOf upgrade) (Inl notFound), EvCreate upgrade None,
                  EvGet (keyOf upgrade) (Inr (stamped ''1'' upgrade))])"
proof -
  have h: "Definition (builder1 (memClient Map.empty)) = Some 0"
      "apiClient (builder1 (memClient Map.empty)) = Some (memClient Map.empty)"
      "errorMsg (builder1 (memClient Map.empty)) = []"
      "0 < nxt world1"
      "clientGet (memClient Map.empty) (trace world1) (keyOf (heap world1 0)) = Inl notFound"
      "IsNotFound notFound"
      "clientCreate (memClient Map.empty)
         (trace world1 @ [EvGet (keyOf (heap world1 0)) (Inl notFound)])
         (heap world1 0) = (None, stamped ''1'' upgrade)"
      "clientGet (memClient Map.empty)
         (trace world1 @ [EvGet (keyOf (heap world1 0)) (Inl notFound), EvCreate (heap world1 0) None])
         (keyOf (stamped ''1'' upgrade)) = Inr (stamped ''1'' upgrade)"
    by (simp_all add: builder1_def world1_def memClient_def notFound_def keyOf_def stamped_def
          upgrade_def)
  have k: "keyOf (stamped ''1'' upgrade) = keyOf upgrade" "heap world1 0 = upgrade"
      "trace world1 = []" "nxt world1 = 1"
    by (simp_all add: keyOf_def stamped_def world1_def)
  from Create_twice_creates_once [OF h] obtain w1 w2 where
    r: "Create (Some (builder1 (memClient Map.empty))) world1 =
          ((Some ((builder1 (memClient Map.empty))
              \<lparr>Object := Definition (builder1 (memClient Map.empty))\<rparr>), None), w1)"
       "trace w1 = trace world1 @ [EvGet (keyOf (heap world1 0)) (Inl notFound),
                                   EvCreate (heap world1 0) None]"
       "nxt w1 = Suc (nxt world1)"
       "Create (Some ((builder1 (memClient Map.empty))
              \<lparr>Object := Definition (builder1 (memClient Map.empty))\<rparr>)) w1 =
          ((Some ((builder1 (memClient Map.empty))\<lparr>Object := Some (nxt w1)\<rparr>), None), w2)"
       "trace w2 = trace w1 @ [EvGet (keyOf (stamped ''1'' upgrade)) (Inr (stamped ''1'' upgrade))]"
    by blast
  have "Create (Some (builder1 (memClient Map.empty))) world1 =
        ((Some ((builder1 (memClient Map.empty))\<lparr>Object := Some 0\<rparr>), None), w1) \<and>
      trace w1 = [EvGet (keyOf upgrade) (Inl notFound), EvCreate upgrade None] \<and>
      Create (Some ((builder1 (memClient Map.empty))\<lparr>Object := Some 0\<rparr>)) w1 =
        ((Some ((builder1 (memClient Map.empty))\<lparr>Object := Some 2\<rparr>), None), w2) \<and>
      trace w2 = [EvGet (keyOf upgrade) (Inl notFound), EvCreate upgrade None,
                  EvGet (keyOf upgrade) (Inr (stamped ''1'' upgrade))]"
    using r by (simp add: k h(1))
  then show ?thesis using h by blast
qed


section \<open>Delete\<close>

text \<open>
  Claim C4, as stated, fails in its last clause: after a failed delete request
  \<^verbatim>\<open>Object\<close> is not what it was before the call. \<^verbatim>\<open>Delete\<close> runs \<^verbatim>\<open>Exists\<close> first, which
  overwrites \<^verbatim>\<open>Object\<close> with the object it has just fetched. Here \<^verbatim>\<open>Object\<close> is nil
  before the call and points at the fetched resource after it.
\<close>

theorem Delete_failure_changes_Object:
  "fst (validate (Some (builder1 (readOnlyClient upgrade forbidden)))) \<and>
   Object (builder1 (readOnlyClient upgrade forbidden)) = None \<and>
   fst (Delete (Some (builder1 (readOnlyClient upgrade forbidden))) world1) = Some forbidden \<and>
   map_option Object (fst (snd (Delete (Some (builder1 (readOnlyClient upgrade forbidden))) world1)))
     = Some (Some 1) \<and>
   heap (snd (snd (Delete (Some (builder1 (readOnlyClient upgrade forbidden))) world1))) 1
     = upgrade"
  by (simp add: builder1_def readOnlyClient_def world1_def validate_def Delete_def Exists_def
        Get_def Let_def)

lemma Delete_absent:
  assumes "Definition b = Some d" "apiClient b = Some c" "errorMsg b = []"
    and "clientGet c (trace w) (keyOf (heap w d)) = Inl e" and "IsNotFound e"
  shows "Delete (Some b) w =
     (None, Some (b\<lparr>Object := None\<rparr>),
      w\<lparr>heap := (heap w)(nxt w := zeroIbgu), nxt := Suc (nxt w),
        trace := trace w @ [EvGet (keyOf (heap w d)) (Inl e)]\<rparr>)"
proof -
  have "Exists (Some b) w =
      (False, Some (b\<lparr>Object := None\<rparr>),
       w\<lparr>heap := (heap w)(nxt w := zeroIbgu), nxt := Suc (nxt w),
         trace := trace w @ [EvGet (keyOf (heap w d)) (Inl e)]\<rparr>)"
    using assms(4,5) by (simp add: Exists_valid [OF assms(1-3)] keyOf_def)
  then show ?thesis
    by (simp add: Delete_def validate_valid [OF assms(1-3)])
qed

lemma Delete_present:
  assumes "Definition b = Some d" "apiClient b = Some c" "errorMsg b = []"
    and "clientGet c (trace w) (keyOf (heap w d)) = Inr v"
    and "clientDelete c (trace w @ [EvGet (keyOf (heap w d)) (Inr v)]) (Some v) = err"
  shows "Delete (Some b) w =
     (err, Some (b\<lparr>Object := if err = None then None else Some (nxt w)\<rparr>),
      w\<lparr>heap := (heap w)(nxt w := v), nxt := Suc (nxt w),
        trace := trace w @ [EvGet (keyOf (heap w d)) (Inr v), EvDelete (Some v) err]\<rparr>)"
proof -
  have "Exists (Some b) w =
      (True, Some (b\<lparr>Object := Some (nxt w)\<rparr>),
       w\<lparr>heap := (heap w)(nxt w := v), nxt := Suc (nxt w),
         trace := trace w @ [EvGet (keyOf (heap w d)) (Inr v)]\<rparr>)"
    using assms(4) by (simp add: Exists_valid [OF assms(1-3)] keyOf_def)
  then show ?thesis
    using assms(2,5)
    by (cases err) (simp_all add: Delete_def validate_valid [OF assms(1-3)] Let_def)
qed

text \<open>
  Claim C4, amended. For every valid builder: when the lookup answers not-found,
  \<^verbatim>\<open>Delete\<close> sets \<^verbatim>\<open>Object\<close> to nil, returns nil and issues no delete request. When the
  lookup answers with the resource, \<^verbatim>\<open>Delete\<close> issues a delete request for that
  just-fetched object and returns what the request returns: on success \<^verbatim>\<open>Object\<close> is
  nil, on failure \<^verbatim>\<open>Object\<close> is left pointing at the object fetched by this call's
  existence check (it is not cleared).
\<close>

theorem Delete_clears_or_keeps_fetched_Object:
  assumes "Definition b = Some d" and "apiClient b = Some c" and "errorMsg b = []"
  shows "(\<forall>e. clientGet c (trace w) (keyOf (heap w d)) = Inl e \<and> IsNotFound e \<longrightarrow>
            (\<exists>w'. Delete (Some b) w = (None, Some (b\<lparr>Object := None\<rparr>), w') \<and>
                  trace w' = trace w @ [EvGet (keyOf (heap w d)) (Inl e)])) \<and>
         (\<forall>v. clientGet c (trace w) (keyOf (heap w d)) = Inr v \<longrightarrow>
            (\<exists>w'. Delete (Some b) w =
                    (clientDelete c (trace w @ [EvGet (keyOf (heap w d)) (Inr v)]) (Some v),
                     Some (b\<lparr>Object :=
                        if clientDelete c (trace w @ [EvGet (keyOf (heap w d)) (Inr v)]) (Some v) = None
                        then None else Some (nxt w)\<rparr>),
                     w') \<and>
                  heap w' (nxt w) = v \<and>
                  trace w' =
                    trace w @
                    [EvGet (keyOf (heap w d)) (Inr v),
                     EvDelete (Some v)
                       (clientDelete c (trace w @ [EvGet (keyOf (heap w d)) (Inr v)]) (Some v))]))"
proof (intro conjI allI impI)
  fix e
  assume "clientGet c (trace w) (keyOf (heap w d)) = Inl e \<and> IsNotFound e"
  then show "\<exists>w'. Delete (Some b) w = (None, Some (b\<lparr>Object := None\<rparr>), w') \<and>
                  trace w' = trace w @ [EvGet (keyOf (heap w d)) (Inl e)]"
    using Delete_absent [OF assms, of w e] by simp
next
  fix v
  assume g: "clientGet c (trace w) (keyOf (heap w d)) = Inr v"
  show "\<exists>w'. Delete (Some b) w =
                    (clientDelete c (trace w @ [EvGet (keyOf (heap w d)) (Inr v)]) (Some v),
                     Some (b\<lparr>Object :=
                        if clientDelete c (trace w @ [EvGet (keyOf (heap w d)) (Inr v)]) (Some v) = None
                        then None else Some (nxt w)\<rparr>),
                     w') \<and>
                  heap w' (nxt w) = v \<and>
                  trace w' =
                    trace w @
                    [EvGet (keyOf (heap w d)) (Inr v),
                     EvDelete (Some v)
                       (clientDelete c (trace w @ [EvGet (keyOf (heap w d)) (Inr v)]) (Some v))]"
    using Delete_present [OF assms g refl] by simp
qed


theorem Delete_clears_or_keeps_fetched_Object_witness:
  "Definition (builder1 (memClient Map.empty)) = Some 0 \<and>
   apiClient (builder1 (memClient Map.empty)) = Some (memClient Map.empty) \<and>
   errorMsg (builder1 (memClient Map.empty)) = [] \<and>
   clientGet (memClient Map.empty) (trace world1) (keyOf (heap world1 0)) = Inl notFound \<and>
   IsNotFound notFound \<and>
   fst (Delete (Some (builder1 (memClient Map.empty))) world1) = None \<and>
   trace (snd (snd (Delete (Some (builder1 (memClient Map.empty))) world1)))
     = [EvGet (keyOf upgrade) (Inl notFound)] \<and>
   clientGet (memClient present) (trace world1) (keyOf (heap world1 0)) = Inr upgrade \<and>
   fst (Delete (Some (builder1 (memClient present))) world1) = None \<and>
   map_option Object (fst (snd (Delete (Some (builder1 (memClient present))) world1)))
     = Some None \<and>
   trace (snd (snd (Delete (Some (builder1 (memClient present))) world1)))
     = [EvGet (keyOf upgrade) (Inr upgrade), EvDelete (Some upgrade) None] \<and>
   clientGet (readOnlyClient upgrade forbidden) (trace world1) (keyOf (heap world1 0))
     = Inr upgrade \<and>
   Delete (Some (builder1 (readOnlyClient upgrade forbidden))) world1 =
     (Some forbidden, Some ((builder1 (readOnlyClient upgrade forbidden))\<lparr>Object := Some 1\<rparr>),
      snd (snd (Delete (Some (builder1 (readOnlyClient upgrade forbidden))) world1)))"
proof -
  have k: "heap world1 0 = upgrade" "trace world1 = []" "nxt world1 = 1"
    by (simp_all add: world1_def)
  have g: "clientGet (memClient Map.empty) [] (keyOf upgrade) = Inl notFound"
      "IsNotFound notFound"
      "clientGet (memClient present) [] (keyOf upgrade) = Inr upgrade"
      "clientDelete (memClient present) [EvGet (keyOf upgrade) (Inr upgrade)] (Some upgrade) = None"
      "clientGet (readOnlyClient upgrade forbidden) [] (keyOf upgrade) = Inr upgrade"
      "clientDelete (readOnlyClient upgrade forbidden) [EvGet (keyOf upgrade) (Inr upgrade)]
         (Some upgrade) = Some forbidden"
    by (simp_all add: memClient_def readOnlyClient_def present_def notFound_def)
  have b: "Definition (builder1 c) = Some 0" "apiClient (builder1 c) = Some c"
      "errorMsg (builder1 c) = []" for c
    by (simp_all add: builder1_def)
  show ?thesis
    using Delete_clears_or_keeps_fetched_Object [OF b, of "memClient Map.empty" world1]
          Delete_clears_or_keeps_fetched_Object [OF b, of "memClient present" world1]
          Delete_clears_or_keeps_fetched_Object [OF b, of "readOnlyClient upgrade forbidden" world1]
    by (auto simp: k g b)
qed


section \<open>What the operations keep of Object\<close>

lemma readResults_append:
  "readResults (xs @ ys) = readResults xs @ readResults ys"
  by (induction xs rule: readResults.induct) simp_all

lemma Object_invariant_frame:
  assumes "Object_invariant (Some b) w"
    and "Definition b' = Definition b" and "Object b' = Object b"
    and "nxt w \<le> nxt w'"
    and "set (readResults (trace w)) \<subseteq> set (readResults (trace w'))"
    and "\<And>a. a < nxt w \<Longrightarrow> Some a \<noteq> Definition b \<Longrightarrow> heap w' a = heap w a"
  shows "Object_invariant (Some b') w'"
proof -
  have "a < nxt w' \<and> (Object b' = Definition b' \<or> heap w' a \<in> set (readResults (trace w')))"
    if a: "Object b' = Some a" for a
  proof (cases "Some a = Definition b")
    case True
    then show ?thesis
      using assms(1-4) a by (auto simp: Object_invariant_def split: option.splits)
  next
    case False
    have "a < nxt w" "heap w a \<in> set (readResults (trace w))"
      using assms(1,3) a False by (auto simp: Object_invariant_def split: option.splits)
    then show ?thesis
      using assms(4,5) assms(6) [OF \<open>a < nxt w\<close> False] by auto
  qed
  moreover have "d < nxt w'" if "Definition b' = Some d" for d
    using assms(1,2,4) that by (auto simp: Object_invariant_def split: option.splits)
  ultimately show ?thesis
    by (auto simp: Object_invariant_def split: option.splits)
qed

lemma Object_invariant_set:
  assumes "Object_invariant (Some b) w"
    and "Definition b' = Definition b"
    and "nxt w \<le> nxt w'"
    and "Object b' = None \<or> Object b' = Definition b \<or>
         (\<exists>a. Object b' = Some a \<and> a < nxt w' \<and> heap w' a \<in> set (readResults (trace w')))"
  shows "Object_invariant (Some b') w'"
  using assms
  by (auto simp: Object_invariant_def split: option.splits)

lemma Object_invariant_With:
  assumes "Object_invariant builder w"
  shows "Object_invariant (fst (WithClusterLabelSelectors builder labels w))
           (snd (WithClusterLabelSelectors builder labels w))"
    and "Object_invariant (fst (WithSeedImageRef builder seedImage seedVersion w))
           (snd (WithSeedImageRef builder seedImage seedVersion w))"
    and "Object_invariant (fst (WithOadpContent builder name namespace w))
           (snd (WithOadpContent builder name namespace w))"
    and "Object_invariant (fst (WithPlan builder actions maxConcurrency timeout w))
           (snd (WithPlan builder actions maxConcurrency timeout w))"
proof -
  show "Object_invariant (fst (WithClusterLabelSelectors builder labels w))
           (snd (WithClusterLabelSelectors builder labels w))"
    using assms
    by (auto simp: WithClusterLabelSelectors_def Let_def split: option.splits
          intro: Object_invariant_frame)
  show "Object_invariant (fst (WithSeedImageRef builder seedImage seedVersion w))
           (snd (WithSeedImageRef builder seedImage seedVersion w))"
    using assms
    by (auto simp: WithSeedImageRef_def Let_def split: option.splits
          intro: Object_invariant_frame)
  show "Object_invariant (fst (WithOadpContent builder name namespace w))
           (snd (WithOadpContent builder name namespace w))"
    using assms
    by (auto simp: WithOadpContent_def Let_def split: option.splits
          intro: Object_invariant_frame)
  show "Object_invariant (fst (WithPlan builder actions maxConcurrency timeout w))
           (snd (WithPlan builder actions maxConcurrency timeout w))"
    using assms
    by (auto simp: WithPlan_def Let_def split: option.splits
          intro: Object_invariant_frame)
qed

lemma Object_invariant_Get:
  assumes "Object_invariant builder w"
  shows "Object_invariant builder (snd (Get builder w))"
proof (cases "fst (validate builder)")
  case False
  then show ?thesis using assms by (simp add: Get_invalid)
next
  case True
  then obtain b d c where
    b: "builder = Some b" "Definition b = Some d" "apiClient b = Some c" "errorMsg b = []"
    unfolding validate_passes_iff by blast
  show ?thesis
    unfolding b(1)
    by (rule Object_invariant_frame [OF assms [unfolded b(1)]])
       (auto simp: Get_valid [OF b(2-4)] Let_def readResults_append split: sum.splits)
qed

lemma Object_invariant_Exists:
  assumes "Object_invariant builder w"
  shows "Object_invariant (fst (snd (Exists builder w))) (snd (snd (Exists builder w)))"
proof (cases "fst (validate builder)")
  case False
  then show ?thesis using assms by (simp add: Exists_invalid)
next
  case True
  then obtain b d c where
    b: "builder = Some b" "Definition b = Some d" "apiClient b = Some c" "errorMsg b = []"
    unfolding validate_passes_iff by blast
  show ?thesis
    unfolding b(1)
    by (cases "clientGet c (trace w) \<lparr>keyName = Name (ObjectMeta (heap w d)),
                 keyNamespace = Namespace (ObjectMeta (heap w d))\<rparr>")
       (auto simp: Exists_valid [OF b(2-4)] Let_def readResults_append
          intro!: Object_invariant_set [OF assms [unfolded b(1)]])
qed

lemma Create_other:
  assumes "Definition b = Some d" "apiClient b = Some c" "errorMsg b = []"
    and "clientGet c (trace w) (keyOf (heap w d)) = Inl e" and "\<not> IsNotFound e"
  shows "Create (Some b) w =
     ((Some (b\<lparr>Object := None\<rparr>), None),
      w\<lparr>heap := (heap w)(nxt w := zeroIbgu), nxt := Suc (nxt w),
        trace := trace w @ [EvGet (keyOf (heap w d)) (Inl e)]\<rparr>)"
proof -
  have "Exists (Some b) w =
      (True, Some (b\<lparr>Object := None\<rparr>),
       w\<lparr>heap := (heap w)(nxt w := zeroIbgu), nxt := Suc (nxt w),
         trace := trace w @ [EvGet (keyOf (heap w d)) (Inl e)]\<rparr>)"
    using assms(4,5) by (simp add: Exists_valid [OF assms(1-3)] keyOf_def)
  then show ?thesis
    by (simp add: Create_def validate_valid [OF assms(1-3)])
qed

lemma Delete_other:
  assumes "Definition b = Some d" "apiClient b = Some c" "errorMsg b = []"
    and "clientGet c (trace w) (keyOf (heap w d)) = Inl e" and "\<not> IsNotFound e"
    and "clientDelete c (trace w @ [EvGet (keyOf (heap w d)) (Inl e)]) None = err"
  shows "Delete (Some b) w =
     (err, Some (b\<lparr>Object := None\<rparr>),
      w\<lparr>heap := (heap w)(nxt w := zeroIbgu), nxt := Suc (nxt w),
        trace := trace w @ [EvGet (keyOf (heap w d)) (Inl e), EvDelete None err]\<rparr>)"
proof -
  have "Exists (Some b) w =
      (True, Some (b\<lparr>Object := None\<rparr>),
       w\<lparr>heap := (heap w)(nxt w := zeroIbgu), nxt := Suc (nxt w),
         trace := trace w @ [EvGet (keyOf (heap w d)) (Inl e)]\<rparr>)"
    using assms(4,5) by (simp add: Exists_valid [OF assms(1-3)] keyOf_def)
  then show ?thesis
    using assms(2,6)
    by (cases err) (simp_all add: Delete_def validate_valid [OF assms(1-3)] Let_def)
qed

lemma Object_invariant_Create:
  assumes "Object_invariant builder w"
  shows "Object_invariant (fst (fst (Create builder w))) (snd (Create builder w))"
proof (cases "fst (validate builder)")
  case False
  then show ?thesis using assms by (simp add: Create_invalid)
next
  case True
  then obtain b d c where
    b: "builder = Some b" and v: "Definition b = Some d" "apiClient b = Some c" "errorMsg b = []"
    unfolding validate_passes_iff by blast
  note inv = assms [unfolded b]
  have d: "d < nxt w" using inv v(1) by (simp add: Object_invariant_def)
  show ?thesis
  proof (cases "clientGet c (trace w) (keyOf (heap w d))")
    case (Inr found)
    show ?thesis
      unfolding b Create_present [OF v Inr] fst_conv snd_conv
      by (rule Object_invariant_set [OF inv]) (simp_all add: readResults_append)
  next
    case (Inl e)
    show ?thesis
    proof (cases "IsNotFound e")
      case False
      show ?thesis
        unfolding b Create_other [OF v Inl False] fst_conv snd_conv
        by (rule Object_invariant_set [OF inv]) simp_all
    next
      case True
      obtain err written where cr:
        "clientCreate c (trace w @ [EvGet (keyOf (heap w d)) (Inl e)]) (heap w d) = (err, written)"
        by (cases "clientCreate c (trace w @ [EvGet (keyOf (heap w d)) (Inl e)]) (heap w d)")
      show ?thesis
        unfolding b Create_absent [OF v d Inl True cr] fst_conv snd_conv
        by (rule Object_invariant_set [OF inv]) (simp_all add: v(1))
    qed
  qed
qed

lemma Object_invariant_Delete:
  assumes "Object_invariant builder w"
  shows "Object_invariant (fst (snd (Delete builder w))) (snd (snd (Delete builder w)))"
proof (cases "fst (validate builder)")
  case False
  then show ?thesis using assms by (simp add: Delete_invalid)
next
  case True
  then obtain b d c where
    b: "builder = Some b" and v: "Definition b = Some d" "apiClient b = Some c" "errorMsg b = []"
    unfolding validate_passes_iff by blast
  note inv = assms [unfolded b]
  show ?thesis
  proof (cases "clientGet c (trace w) (keyOf (heap w d))")
    case (Inr found)
    show ?thesis
      unfolding b Delete_present [OF v Inr refl] fst_conv snd_conv
      by (rule Object_invariant_set [OF inv]) (simp_all add: readResults_append)
  next
    case (Inl e)
    show ?thesis
    proof (cases "IsNotFound e")
      case False
      show ?thesis
        unfolding b Delete_other [OF v Inl False refl] fst_conv snd_conv
        by (rule Object_invariant_set [OF inv]) simp_all
    next
      case True
      show ?thesis
        unfolding b Delete_absent [OF v Inl True] fst_conv snd_conv
        by (rule Object_invariant_set [OF inv]) simp_all
    qed
  qed
qed

lemma Object_invariant_run:
  "Object_invariant builder w \<Longrightarrow>
     Object_invariant (fst (run c builder w)) (snd (run c builder w))"
  by (cases c)
     (simp_all add: Object_invariant_With Object_invariant_Get Object_invariant_Exists
        Object_invariant_Create Object_invariant_Delete)

lemma Object_invariant_runAll:
  "Object_invariant builder w \<Longrightarrow>
     Object_invariant (fst (runAll cs builder w)) (snd (runAll cs builder w))"
proof (induction cs arbitrary: builder w)
  case Nil
  then show ?case by simp
next
  case (Cons c cs)
  from Cons.IH [OF Object_invariant_run [OF Cons.prems, of c]]
  show ?case by (simp add: case_prod_unfold)
qed

lemma Object_invariant_New:
  "Object_invariant (fst (NewIbguBuilder apiClient' name nsname w))
     (snd (NewIbguBuilder apiClient' name nsname w))"
  by (simp add: NewIbguBuilder_def Object_invariant_def Let_def split: option.splits)


lemma builder1_valid:
  "Definition (builder1 c) = Some 0" "apiClient (builder1 c) = Some c"
  "errorMsg (builder1 c) = []"
  by (simp_all add: builder1_def)

lemma world1_simps:
  "heap world1 0 = upgrade" "trace world1 = []" "nxt world1 = 1"
  by (simp_all add: world1_def)

lemma Create_on_empty_cluster:
  "Create (Some (builder1 (memClient Map.empty))) world1 =
     ((Some ((builder1 (memClient Map.empty))\<lparr>Object := Some 0\<rparr>), None),
      world1\<lparr>heap := (heap world1)(1 := zeroIbgu, 0 := stamped ''1'' upgrade), nxt := 2,
             trace := [EvGet (keyOf upgrade) (Inl notFound), EvCreate upgrade None]\<rparr>)"
proof -
  have g: "clientGet (memClient Map.empty) (trace world1) (keyOf (heap world1 0)) = Inl notFound"
    by (simp add: memClient_def world1_simps)
  have n: "IsNotFound notFound" by (simp add: notFound_def)
  have c: "clientCreate (memClient Map.empty)
             (trace world1 @ [EvGet (keyOf (heap world1 0)) (Inl notFound)]) (heap world1 0)
           = (None, stamped ''1'' upgrade)"
    by (simp add: memClient_def world1_simps)
  have "0 < nxt world1" by (simp add: world1_simps)
  from Create_absent [OF builder1_valid this g n c]
  show ?thesis by (simp add: world1_simps)
qed

text \<open>
  Claim C6, as stated, fails. \<^verbatim>\<open>Get\<close> does not store what it reads: after \<^verbatim>\<open>Exists\<close>
  has stored one observation, a later \<^verbatim>\<open>Get\<close> that reads a newer state of the resource
  leaves \<^verbatim>\<open>Object\<close> at the older one. And after a successful \<^verbatim>\<open>Create\<close> on an empty
  cluster \<^verbatim>\<open>Object\<close> is the definition that was submitted, although no lookup has
  succeeded at all.
\<close>

theorem Object_not_always_last_read:
  "spec_Object_invariant (Some (builder1 (driftingClient upgrade))) world1 \<and>
   spec_Object_invariant
     (fst (runAll [CallExists] (Some (builder1 (driftingClient upgrade))) world1))
     (snd (runAll [CallExists] (Some (builder1 (driftingClient upgrade))) world1)) \<and>
   \<not> spec_Object_invariant
     (fst (runAll [CallExists, CallGet] (Some (builder1 (driftingClient upgrade))) world1))
     (snd (runAll [CallExists, CallGet] (Some (builder1 (driftingClient upgrade))) world1)) \<and>
   spec_Object_invariant (Some (builder1 (memClient Map.empty))) world1 \<and>
   \<not> spec_Object_invariant
     (fst (runAll [CallCreate] (Some (builder1 (memClient Map.empty))) world1))
     (snd (runAll [CallCreate] (Some (builder1 (memClient Map.empty))) world1))"
proof -
  have b: "Definition (builder1 c) = Some 0" "apiClient (builder1 c) = Some c"
      "errorMsg (builder1 c) = []" for c
    by (simp_all add: builder1_def)
  have b': "Definition ((builder1 c)\<lparr>Object := x\<rparr>) = Some 0"
      "apiClient ((builder1 c)\<lparr>Object := x\<rparr>) = Some c"
      "errorMsg ((builder1 c)\<lparr>Object := x\<rparr>) = []" for c x
    by (simp_all add: builder1_def)
  have 1: "spec_Object_invariant (Some (builder1 c)) world1" for c
    by (simp add: spec_Object_invariant_def spec_reflects_last_read_def builder1_def)
  have 2: "spec_Object_invariant
     (fst (runAll [CallExists] (Some (builder1 (driftingClient upgrade))) world1))
     (snd (runAll [CallExists] (Some (builder1 (driftingClient upgrade))) world1))"
    by (simp add: Exists_valid [OF b] spec_Object_invariant_def spec_reflects_last_read_def
          driftingClient_def world1_def Let_def)
  have 3: "\<not> spec_Object_invariant
     (fst (runAll [CallExists, CallGet] (Some (builder1 (driftingClient upgrade))) world1))
     (snd (runAll [CallExists, CallGet] (Some (builder1 (driftingClient upgrade))) world1))"
    by (simp add: Exists_valid [OF b] Get_valid [OF b'] spec_Object_invariant_def
          spec_reflects_last_read_def driftingClient_def world1_def Let_def stamped_def
          upgrade_def)
  have 4: "\<not> spec_Object_invariant
     (fst (runAll [CallCreate] (Some (builder1 (memClient Map.empty))) world1))
     (snd (runAll [CallCreate] (Some (builder1 (memClient Map.empty))) world1))"
    by (simp add: Create_on_empty_cluster spec_Object_invariant_def
          spec_reflects_last_read_def)
  show ?thesis using 1 2 3 4 by blast
qed

text \<open>
  Claim C6, amended. At every point in the lifetime of a builder, \<^verbatim>\<open>Object\<close> is nil, or
  it is the \<^verbatim>\<open>Definition\<close> pointer (after a successful create request), or it points at
  an object holding the answer of a successful lookup of the trace (the one stored by
  \<^verbatim>\<open>Exists\<close>, not necessarily the most recent read). The constructor establishes this,
  every operation preserves it, and so it holds after every sequence of operations.
\<close>

theorem Object_invariant_lifetime:
  "Object_invariant (fst (NewIbguBuilder apiClient' name nsname w))
     (snd (NewIbguBuilder apiClient' name nsname w)) \<and>
   (Object_invariant builder w' \<longrightarrow>
      Object_invariant (fst (run c builder w')) (snd (run c builder w'))) \<and>
   Object_invariant
     (fst (runAll cs (fst (NewIbguBuilder apiClient' name nsname w))
             (snd (NewIbguBuilder apiClient' name nsname w))))
     (snd (runAll cs (fst (NewIbguBuilder apiClient' name nsname w))
             (snd (NewIbguBuilder apiClient' name nsname w))))"
  using Object_invariant_New Object_invariant_run Object_invariant_runAll by blast

theorem Object_invariant_lifetime_witness:
  "NewIbguBuilder (Some \<lparr>Client = Some (memClient Map.empty), AttachScheme = None\<rparr>)
     ''upgrade'' ''ztp'' world0 = (Some (builder1 (memClient Map.empty)), world1) \<and>
   Object_invariant (Some (builder1 (memClient Map.empty))) world1 \<and>
   Object_invariant
     (fst (run CallCreate (Some (builder1 (memClient Map.empty))) world1))
     (snd (run CallCreate (Some (builder1 (memClient Map.empty))) world1)) \<and>
   map_option Object (fst (run CallCreate (Some (builder1 (memClient Map.empty))) world1))
     = Some (Some 0) \<and>
   Object_invariant
     (fst (runAll [CallCreate, CallWithOadpContent ''oadp-cm'' ''openshift-adp'', CallExists,
                   CallGet, CallDelete]
             (Some (builder1 (memClient Map.empty))) world1))
     (snd (runAll [CallCreate, CallWithOadpContent ''oadp-cm'' ''openshift-adp'', CallExists,
                   CallGet, CallDelete]
             (Some (builder1 (memClient Map.empty))) world1))"
proof -
  have n: "NewIbguBuilder (Some \<lparr>Client = Some (memClient Map.empty), AttachScheme = None\<rparr>)
     ''upgrade'' ''ztp'' world0 = (Some (builder1 (memClient Map.empty)), world1)"
    by (simp add: NewIbguBuilder_def Let_def builder1_def world1_def world0_def upgrade_def)
  have b: "Definition (builder1 c) = Some 0" "apiClient (builder1 c) = Some c"
      "errorMsg (builder1 c) = []" for c
    by (simp_all add: builder1_def)
  have o: "map_option Object (fst (run CallCreate (Some (builder1 (memClient Map.empty))) world1))
     = Some (Some 0)"
    by (simp add: Create_on_empty_cluster)
  show ?thesis
    using Object_invariant_lifetime
            [of "Some \<lparr>Client = Some (memClient Map.empty), AttachScheme = None\<rparr>"
                "''upgrade''" "''ztp''" world0 "Some (builder1 (memClient Map.empty))" world1
                CallCreate
                "[CallCreate, CallWithOadpContent ''oadp-cm'' ''openshift-adp'', CallExists,
                   CallGet, CallDelete]"]
    unfolding n fst_conv snd_conv using n o by blast
qed

section \<open>Listing, cleanup and the node configuration builder\<close>


lemma ListPolicy_loop_closed:
  assumes "policy < nxt_p w"
  shows "fst (ListPolicy_loop cl policy items acc w) =
           acc @ map (builderAt cl) [nxt_p w ..< nxt_p w + length items] \<and>
         nxt_p (snd (ListPolicy_loop cl policy items acc w)) = nxt_p w + length items \<and>
         trace_p (snd (ListPolicy_loop cl policy items acc w)) = trace_p w \<and>
         (\<forall>i < length items.
            heap_p (snd (ListPolicy_loop cl policy items acc w)) (nxt_p w + i) = items ! i) \<and>
         (\<forall>a < nxt_p w. a \<noteq> policy \<longrightarrow>
            heap_p (snd (ListPolicy_loop cl policy items acc w)) a = heap_p w a)"
  using assms
proof (induction items arbitrary: acc w)
  case Nil
  then show ?case by simp
next
  case (Cons item items)
  define w2 where
    "w2 = w\<lparr>heap_p := (heap_p w)(policy := item, nxt_p w := item), nxt_p := Suc (nxt_p w)\<rparr>"
  define acc2 where "acc2 = acc @ [builderAt cl (nxt_p w)]"
  have step: "ListPolicy_loop cl policy (item # items) acc w = ListPolicy_loop cl policy items acc2 w2"
    by (simp add: Let_def w2_def acc2_def builderAt_def)
  have p2: "policy < nxt_p w2" using Cons.prems by (simp add: w2_def)
  note IH = Cons.IH [OF p2, of acc2]
  have n2: "nxt_p w2 = Suc (nxt_p w)" "trace_p w2 = trace_p w" by (simp_all add: w2_def)
  have h0: "heap_p w2 (nxt_p w) = item" by (simp add: w2_def)
  have hold: "heap_p w2 a = heap_p w a" if "a < nxt_p w" "a \<noteq> policy" for a
    using that by (simp add: w2_def)
  have 1: "fst (ListPolicy_loop cl policy items acc2 w2) =
           acc @ map (builderAt cl) [nxt_p w ..< nxt_p w + length (item # items)]"
  proof -
    have "[nxt_p w ..< nxt_p w + length (item # items)] =
            nxt_p w # [nxt_p w2 ..< nxt_p w2 + length items]"
      unfolding n2 by (subst upt_conv_Cons) simp_all
    then show ?thesis using IH by (simp add: acc2_def)
  qed
  have 2: "nxt_p (snd (ListPolicy_loop cl policy items acc2 w2)) = nxt_p w + length (item # items)"
    using IH by (simp add: n2)
  have 3: "trace_p (snd (ListPolicy_loop cl policy items acc2 w2)) = trace_p w"
    using IH by (simp add: n2)
  have 4: "heap_p (snd (ListPolicy_loop cl policy items acc2 w2)) (nxt_p w + i) = (item # items) ! i"
    if "i < length (item # items)" for i
  proof (cases i)
    case 0
    have "nxt_p w < nxt_p w2" "nxt_p w \<noteq> policy" using Cons.prems by (simp_all add: n2)
    with IH have "heap_p (snd (ListPolicy_loop cl policy items acc2 w2)) (nxt_p w) = heap_p w2 (nxt_p w)"
      by blast
    then show ?thesis using 0 h0 by simp
  next
    case (Suc j)
    then have "j < length items" using that by simp
    with IH have "heap_p (snd (ListPolicy_loop cl policy items acc2 w2)) (nxt_p w2 + j) = items ! j"
      by blast
    then show ?thesis using Suc by (simp add: n2)
  qed
  have 5: "heap_p (snd (ListPolicy_loop cl policy items acc2 w2)) a = heap_p w a"
    if "a < nxt_p w" "a \<noteq> policy" for a
  proof -
    have "a < nxt_p w2" using that by (simp add: n2)
    with IH that(2) have "heap_p (snd (ListPolicy_loop cl policy items acc2 w2)) a = heap_p w2 a"
      by blast
    then show ?thesis using hold [OF that] by simp
  qed
  show ?case unfolding step using 1 2 3 4 5 by blast
qed

lemma ListPolicy_lists:
  assumes "nsname \<noteq> []"
    and "SriovNetworkNodePolicies s (trace_p w) nsname options = Inr items"
  shows "\<exists>w'. ListPolicy (Some s) nsname options w =
                (Return (Inr (map (builderAt (Some s))
                   [Suc (nxt_p w) ..< Suc (nxt_p w) + length items])), w') \<and>
              trace_p w' = trace_p w @ [EvList nsname options (Inr items)] \<and>
              (\<forall>i < length items. heap_p w' (Suc (nxt_p w) + i) = items ! i)"
proof -
  define w2 where
    "w2 = w\<lparr>trace_p := trace_p w @ [EvList nsname options (Inr items)], nxt_p := Suc (nxt_p w)\<rparr>"
  have p: "nxt_p w < nxt_p w2" by (simp add: w2_def)
  note closed = ListPolicy_loop_closed [OF p, of "Some s" items "[]"]
  have "ListPolicy (Some s) nsname options w =
          (Return (Inr (fst (ListPolicy_loop (Some s) (nxt_p w) items [] w2))),
           snd (ListPolicy_loop (Some s) (nxt_p w) items [] w2))"
    using assms by (simp add: ListPolicy_def Let_def w2_def case_prod_unfold)
  moreover have "nxt_p w2 = Suc (nxt_p w)"
      "trace_p w2 = trace_p w @ [EvList nsname options (Inr items)]"
    by (simp_all add: w2_def)
  ultimately show ?thesis using closed by simp
qed

text \<open>
  Claim C9. Every builder in the list that a successful \<^verbatim>\<open>ListPolicy\<close> returns has
  non-nil \<^verbatim>\<open>Object\<close> and \<^verbatim>\<open>Definition\<close>, and the two are the same pointer. The
  \<open>i\<close>-th builder points at a cell of its own, allocated by the call, which holds the
  \<open>i\<close>-th item of the list the client answered; the pointers of distinct builders are
  distinct, and none is the cell of the iteration variable (the first cell the call
  allocates, at \<open>nxt_p w\<close>).
\<close>

theorem ListPolicy_builders_own_their_copies:
  assumes "ListPolicy apiClient' nsname options w = (Return (Inr builders), w')"
  shows "\<exists>s items.
           apiClient' = Some s \<and>
           SriovNetworkNodePolicies s (trace_p w) nsname options = Inr items \<and>
           length builders = length items \<and>
           (\<forall>i < length builders.
              Object_p (builders ! i) = Some (Suc (nxt_p w) + i) \<and>
              Definition_p (builders ! i) = Object_p (builders ! i) \<and>
              heap_p w' (Suc (nxt_p w) + i) = items ! i) \<and>
           (\<forall>b \<in> set builders. Object_p b \<noteq> None \<and> Definition_p b \<noteq> None) \<and>
           distinct (map Object_p builders) \<and>
           Some (nxt_p w) \<notin> set (map Object_p builders)"
proof -
  from assms have ns: "nsname \<noteq> []"
    by (auto simp: ListPolicy_def)
  with assms obtain s where s: "apiClient' = Some s"
    by (cases apiClient') (auto simp: ListPolicy_def)
  from assms ns s obtain items where
    items: "SriovNetworkNodePolicies s (trace_p w) nsname options = Inr items"
    by (cases "SriovNetworkNodePolicies s (trace_p w) nsname options")
       (auto simp: ListPolicy_def Let_def)
  from ListPolicy_lists [OF ns items] assms s
  have bs: "builders = map (builderAt (Some s)) [Suc (nxt_p w) ..< Suc (nxt_p w) + length items]"
    and heap: "\<forall>i < length items. heap_p w' (Suc (nxt_p w) + i) = items ! i"
    by (auto simp del: upt_Suc)
  have len: "length builders = length items" by (simp add: bs del: upt_Suc)
  have obj: "map Object_p builders = map Some [Suc (nxt_p w) ..< Suc (nxt_p w) + length items]"
    by (simp add: bs builderAt_def comp_def del: upt_Suc)
  have each: "Object_p (builders ! i) = Some (Suc (nxt_p w) + i) \<and>
              Definition_p (builders ! i) = Object_p (builders ! i)"
    if "i < length builders" for i
    using that by (simp add: bs builderAt_def del: upt_Suc)
  have nonnil: "\<forall>b \<in> set builders. Object_p b \<noteq> None \<and> Definition_p b \<noteq> None"
    by (auto simp: bs builderAt_def simp del: upt_Suc)
  have dist: "distinct (map Object_p builders)"
    unfolding obj by (simp add: distinct_map del: upt_Suc)
  have fresh: "Some (nxt_p w) \<notin> set (map Object_p builders)"
    unfolding obj by (auto simp del: upt_Suc)
  show ?thesis
    using s items len each heap nonnil dist fresh by (auto simp: len)
qed




theorem ListPolicy_builders_own_their_copies_witness:
  "ListPolicy (Some threePolicies) ''sriov-operator'' noOptions world_p0 =
     (Return (Inr [builderAt (Some threePolicies) 1, builderAt (Some threePolicies) 2,
                   builderAt (Some threePolicies) 3]),
      snd (ListPolicy (Some threePolicies) ''sriov-operator'' noOptions world_p0)) \<and>
   heap_p (snd (ListPolicy (Some threePolicies) ''sriov-operator'' noOptions world_p0)) 1
     = policyNamed ''default'' \<and>
   heap_p (snd (ListPolicy (Some threePolicies) ''sriov-operator'' noOptions world_p0)) 2
     = policyNamed ''a'' \<and>
   heap_p (snd (ListPolicy (Some threePolicies) ''sriov-operator'' noOptions world_p0)) 3
     = policyNamed ''b'' \<and>
   distinct (map Object_p [builderAt (Some threePolicies) 1, builderAt (Some threePolicies) 2,
                           builderAt (Some threePolicies) 3]) \<and>
   Some (nxt_p world_p0) \<notin>
     set (map Object_p [builderAt (Some threePolicies) 1, builderAt (Some threePolicies) 2,
                        builderAt (Some threePolicies) 3])"
proof -
  have l: "ListPolicy (Some threePolicies) ''sriov-operator'' noOptions world_p0 =
     (Return (Inr [builderAt (Some threePolicies) 1, builderAt (Some threePolicies) 2,
                   builderAt (Some threePolicies) 3]),
      snd (ListPolicy (Some threePolicies) ''sriov-operator'' noOptions world_p0))"
    by (simp add: ListPolicy_def threePolicies_def world_p0_def Let_def builderAt_def)
  from ListPolicy_builders_own_their_copies [OF l] obtain s items where
    r: "SriovNetworkNodePolicies s (trace_p world_p0) ''sriov-operator'' noOptions = Inr items"
       "Some threePolicies = Some s"
       "\<forall>i < length [builderAt (Some threePolicies) 1, builderAt (Some threePolicies) 2,
                   builderAt (Some threePolicies) 3].
          heap_p (snd (ListPolicy (Some threePolicies) ''sriov-operator'' noOptions world_p0))
            (Suc (nxt_p world_p0) + i) = items ! i"
       "distinct (map Object_p [builderAt (Some threePolicies) 1, builderAt (Some threePolicies) 2,
                           builderAt (Some threePolicies) 3])"
       "Some (nxt_p world_p0) \<notin>
          set (map Object_p [builderAt (Some threePolicies) 1, builderAt (Some threePolicies) 2,
                        builderAt (Some threePolicies) 3])"
    by blast
  from r(2) have "s = threePolicies" by simp
  with r(1) have items: "items = [policyNamed ''default'', policyNamed ''a'', policyNamed ''b'']"
    by (simp add: threePolicies_def)
  have n: "nxt_p world_p0 = 0" by (simp add: world_p0_def)
  from r(3) [rule_format, of 0] r(3) [rule_format, of 1] r(3) [rule_format, of 2]
  have "heap_p (snd (ListPolicy (Some threePolicies) ''sriov-operator'' noOptions world_p0)) 1
          = policyNamed ''default''"
       "heap_p (snd (ListPolicy (Some threePolicies) ''sriov-operator'' noOptions world_p0)) 2
          = policyNamed ''a''"
       "heap_p (snd (ListPolicy (Some threePolicies) ''sriov-operator'' noOptions world_p0)) 3
          = policyNamed ''b''"
    by (simp_all add: items n numeral_2_eq_2 numeral_3_eq_3)
  with l r(4,5) show ?thesis by blast
qed

lemma Clean_loop_default:
  "\<not> notDefault (heap_p w a) \<Longrightarrow>
     Clean_loop Delete' (builderAt cl a # bs) w = Clean_loop Delete' bs w"
  by (simp add: builderAt_def notDefault_def)

lemma Clean_loop_deleted:
  "notDefault (heap_p w a) \<Longrightarrow> fst (Delete' (trace_p w) (heap_p w a)) = None \<Longrightarrow>
     Clean_loop Delete' (builderAt cl a # bs) w =
       Clean_loop Delete' bs (w\<lparr>trace_p := trace_p w @ [deleted (heap_p w a)]\<rparr>)"
  by (cases "Delete' (trace_p w) (heap_p w a)")
     (simp add: builderAt_def notDefault_def deleted_def)

lemma Clean_loop_failed:
  "notDefault (heap_p w a) \<Longrightarrow> Delete' (trace_p w) (heap_p w a) = (Some e, False) \<Longrightarrow>
     Clean_loop Delete' (builderAt cl a # bs) w =
       (Return (Some e), w\<lparr>trace_p := trace_p w @ [EvPolicyDelete (heap_p w a) (Some e)]\<rparr>)"
  by (simp add: builderAt_def notDefault_def)

lemma Clean_loop_all_succeed:
  assumes "\<forall>i < length (filter notDefault (map (heap_p w) as)).
             fst (Delete' (trace_p w @ map deleted (take i (filter notDefault (map (heap_p w) as))))
                    (filter notDefault (map (heap_p w) as) ! i)) = None"
  shows "Clean_loop Delete' (map (builderAt cl) as) w =
           (Return None,
            w\<lparr>trace_p := trace_p w @ map deleted (filter notDefault (map (heap_p w) as))\<rparr>)"
  using assms
proof (induction as arbitrary: w)
  case Nil
  then show ?case by simp
next
  case (Cons a as)
  show ?case
  proof (cases "notDefault (heap_p w a)")
    case False
    with Cons.prems have
      "\<forall>i < length (filter notDefault (map (heap_p w) as)).
         fst (Delete' (trace_p w @ map deleted (take i (filter notDefault (map (heap_p w) as))))
                (filter notDefault (map (heap_p w) as) ! i)) = None"
      by simp
    from Cons.IH [OF this] False show ?thesis
      by (simp add: Clean_loop_default del: Clean_loop.simps(2))
  next
    case True
    let ?ts = "filter notDefault (map (heap_p w) as)"
    let ?w' = "w\<lparr>trace_p := trace_p w @ [deleted (heap_p w a)]\<rparr>"
    have all: "\<forall>i < Suc (length ?ts).
         fst (Delete' (trace_p w @ map deleted (take i (heap_p w a # ?ts)))
                ((heap_p w a # ?ts) ! i)) = None"
      using Cons.prems True by simp
    from all [rule_format, of 0] have first: "fst (Delete' (trace_p w) (heap_p w a)) = None"
      by simp
    have rest: "\<forall>i < length (filter notDefault (map (heap_p ?w') as)).
         fst (Delete' (trace_p ?w' @ map deleted (take i (filter notDefault (map (heap_p ?w') as))))
                (filter notDefault (map (heap_p ?w') as) ! i)) = None"
    proof (intro allI impI)
      fix i
      assume "i < length (filter notDefault (map (heap_p ?w') as))"
      then have "Suc i < Suc (length ?ts)" by simp
      from all [rule_format, OF this]
      show "fst (Delete' (trace_p ?w' @ map deleted (take i (filter notDefault (map (heap_p ?w') as))))
                (filter notDefault (map (heap_p ?w') as) ! i)) = None"
        by simp
    qed
    from Cons.IH [OF rest] first True show ?thesis
      by (simp add: Clean_loop_deleted del: Clean_loop.simps(2))
  qed
qed

lemma Clean_loop_first_failure:
  assumes "filter notDefault (map (heap_p w) as) = pre @ p # post"
    and "\<forall>i < length pre. fst (Delete' (trace_p w @ map deleted (take i pre)) (pre ! i)) = None"
    and "Delete' (trace_p w @ map deleted pre) p = (Some e, False)"
  shows "Clean_loop Delete' (map (builderAt cl) as) w =
           (Return (Some e),
            w\<lparr>trace_p := trace_p w @ map deleted pre @ [EvPolicyDelete p (Some e)]\<rparr>)"
  using assms
proof (induction as arbitrary: w pre)
  case Nil
  then show ?case by simp
next
  case (Cons a as)
  show ?case
  proof (cases "notDefault (heap_p w a)")
    case False
    with Cons.prems(1) have "filter notDefault (map (heap_p w) as) = pre @ p # post" by simp
    from Cons.IH [OF this Cons.prems(2,3)] False show ?thesis
      by (simp add: Clean_loop_default del: Clean_loop.simps(2))
  next
    case True
    with Cons.prems(1) have f: "heap_p w a # filter notDefault (map (heap_p w) as) = pre @ p # post"
      by simp
    show ?thesis
    proof (cases pre)
      case Nil
      with f have "heap_p w a = p" by simp
      with Cons.prems(3) Nil True show ?thesis
        by (simp add: Clean_loop_failed del: Clean_loop.simps(2))
    next
      case (Cons q pre')
      let ?w' = "w\<lparr>trace_p := trace_p w @ [deleted (heap_p w a)]\<rparr>"
      from f Cons have q: "heap_p w a = q"
        and f': "filter notDefault (map (heap_p ?w') as) = pre' @ p # post"
        by simp_all
      have all: "\<forall>i < Suc (length pre').
          fst (Delete' (trace_p w @ map deleted (take i (q # pre'))) ((q # pre') ! i)) = None"
        using Cons.prems(2) Cons by simp
      from all [rule_format, of 0] q have first: "fst (Delete' (trace_p w) (heap_p w a)) = None"
        by simp
      have rest: "\<forall>i < length pre'.
          fst (Delete' (trace_p ?w' @ map deleted (take i pre')) (pre' ! i)) = None"
      proof (intro allI impI)
        fix i
        assume "i < length pre'"
        then have "Suc i < Suc (length pre')" by simp
        from all [rule_format, OF this] q
        show "fst (Delete' (trace_p ?w' @ map deleted (take i pre')) (pre' ! i)) = None"
          by simp
      qed
      have fail: "Delete' (trace_p ?w' @ map deleted pre') p = (Some e, False)"
        using Cons.prems(3) Cons q by simp
      from Cons.IH [OF f' rest fail] first True q Cons show ?thesis
        by (simp add: Clean_loop_deleted del: Clean_loop.simps(2))
    qed
  qed
qed








lemma heap_range_eq:
  assumes "\<forall>i < length items. h (n + i) = items ! i"
  shows "map h [n ..< n + length items] = items"
proof (rule nth_equalityI)
  show "length (map h [n ..< n + length items]) = length items"
    by (simp del: upt_Suc)
next
  fix i
  assume "i < length (map h [n ..< n + length items])"
  then have "i < length items" by (simp del: upt_Suc)
  then show "map h [n ..< n + length items] ! i = items ! i"
    using assms by (simp del: upt_Suc)
qed

text \<open>
  Claim C5. With an empty namespace \<^verbatim>\<open>CleanAllNetworkNodePolicies\<close> returns an error and
  the world is untouched (nothing is listed). Otherwise it lists the policies of that
  namespace, and with \<open>targets\<close> the listed policies not named "default", in list order:
  \<^item> when each deletion succeeds at the moment it is attempted, the call returns nil and
    the trace shows the list request followed by one deletion per target, in order, and
    no deletion of "default";
  \<^item> when the deletions of \<open>pre\<close> succeed and the deletion of the next target \<open>p\<close>
    fails with \<open>e\<close>, the call returns \<open>e\<close> and the trace ends with the failed deletion
    of \<open>p\<close>: the targets after \<open>p\<close> are not attempted.
\<close>

theorem CleanAllNetworkNodePolicies_spares_default:
  "CleanAllNetworkNodePolicies Delete' apiClient' [] options w =
     (Return (Some (Errorf
        ''failed to clean up SriovNetworkNodePolicies, 'operatornsname' parameter is empty'')),
      w) \<and>
   (operatornsname \<noteq> [] \<and>
    SriovNetworkNodePolicies s (trace_p w) operatornsname options = Inr items \<longrightarrow>
      (let listed = trace_p w @ [EvList operatornsname options (Inr items)];
           targets = filter notDefault items;
           result = CleanAllNetworkNodePolicies Delete' (Some s) operatornsname options w
       in ((\<forall>i < length targets.
              fst (Delete' (listed @ map deleted (take i targets)) (targets ! i)) = None) \<longrightarrow>
             fst result = Return None \<and>
             trace_p (snd result) = listed @ map deleted targets) \<and>
          (\<forall>pre p post e.
             targets = pre @ p # post \<and>
             (\<forall>i < length pre.
                fst (Delete' (listed @ map deleted (take i pre)) (pre ! i)) = None) \<and>
             Delete' (listed @ map deleted pre) p = (Some e, False) \<longrightarrow>
             fst result = Return (Some e) \<and>
             trace_p (snd result) = listed @ map deleted pre @ [EvPolicyDelete p (Some e)])))"
proof (intro conjI impI)
  show "CleanAllNetworkNodePolicies Delete' apiClient' [] options w =
     (Return (Some (Errorf
        ''failed to clean up SriovNetworkNodePolicies, 'operatornsname' parameter is empty'')),
      w)"
    by (simp add: CleanAllNetworkNodePolicies_def)
next
  assume h: "operatornsname \<noteq> [] \<and>
    SriovNetworkNodePolicies s (trace_p w) operatornsname options = Inr items"
  define listed where "listed = trace_p w @ [EvList operatornsname options (Inr items)]"
  define as where "as = [Suc (nxt_p w) ..< Suc (nxt_p w) + length items]"
  from ListPolicy_lists [of operatornsname s w options items] h obtain w1 where
    l: "ListPolicy (Some s) operatornsname options w = (Return (Inr (map (builderAt (Some s)) as)), w1)"
    and t: "trace_p w1 = listed"
    and hp: "\<forall>i < length items. heap_p w1 (Suc (nxt_p w) + i) = items ! i"
    unfolding as_def listed_def by blast
  have items: "map (heap_p w1) as = items"
    unfolding as_def using hp by (rule heap_range_eq)
  have c: "CleanAllNetworkNodePolicies Delete' (Some s) operatornsname options w =
             Clean_loop Delete' (map (builderAt (Some s)) as) w1"
    using h l by (simp add: CleanAllNetworkNodePolicies_def)
  have ok: "fst (Clean_loop Delete' (map (builderAt (Some s)) as) w1) = Return None \<and>
            trace_p (snd (Clean_loop Delete' (map (builderAt (Some s)) as) w1)) =
              listed @ map deleted (filter notDefault items)"
    if "\<forall>i < length (filter notDefault items).
          fst (Delete' (listed @ map deleted (take i (filter notDefault items)))
                 (filter notDefault items ! i)) = None"
    using Clean_loop_all_succeed [of w1 as Delete' "Some s"] that
    by (simp add: items t)
  have bad: "fst (Clean_loop Delete' (map (builderAt (Some s)) as) w1) = Return (Some e) \<and>
            trace_p (snd (Clean_loop Delete' (map (builderAt (Some s)) as) w1)) =
              listed @ map deleted pre @ [EvPolicyDelete p (Some e)]"
    if "filter notDefault items = pre @ p # post \<and>
        (\<forall>i < length pre. fst (Delete' (listed @ map deleted (take i pre)) (pre ! i)) = None) \<and>
        Delete' (listed @ map deleted pre) p = (Some e, False)"
    for pre p post e
    using Clean_loop_first_failure [of w1 as pre p post Delete' e "Some s"] that
    by (simp add: items t)
  show "let listed = trace_p w @ [EvList operatornsname options (Inr items)];
            targets = filter notDefault items;
            result = CleanAllNetworkNodePolicies Delete' (Some s) operatornsname options w
        in ((\<forall>i < length targets.
              fst (Delete' (listed @ map deleted (take i targets)) (targets ! i)) = None) \<longrightarrow>
             fst result = Return None \<and>
             trace_p (snd result) = listed @ map deleted targets) \<and>
          (\<forall>pre p post e.
             targets = pre @ p # post \<and>
             (\<forall>i < length pre.
                fst (Delete' (listed @ map deleted (take i pre)) (pre ! i)) = None) \<and>
             Delete' (listed @ map deleted pre) p = (Some e, False) \<longrightarrow>
             fst result = Return (Some e) \<and>
             trace_p (snd result) = listed @ map deleted pre @ [EvPolicyDelete p (Some e)])"
    unfolding Let_def c listed_def [symmetric]
    using ok bad by blast
qed


theorem CleanAllNetworkNodePolicies_spares_default_witness:
  "CleanAllNetworkNodePolicies deleteSucceeds (Some threePolicies) [] noOptions world_p0 =
     (Return (Some (Errorf
        ''failed to clean up SriovNetworkNodePolicies, 'operatornsname' parameter is empty'')),
      world_p0) \<and>
   ''sriov-operator'' \<noteq> [] \<and>
   SriovNetworkNodePolicies threePolicies (trace_p world_p0) ''sriov-operator'' noOptions =
     Inr [policyNamed ''default'', policyNamed ''a'', policyNamed ''b''] \<and>
   filter notDefault [policyNamed ''default'', policyNamed ''a'', policyNamed ''b''] =
     [policyNamed ''a'', policyNamed ''b''] \<and>
   fst (CleanAllNetworkNodePolicies deleteSucceeds (Some threePolicies) ''sriov-operator''
          noOptions world_p0) = Return None \<and>
   trace_p (snd (CleanAllNetworkNodePolicies deleteSucceeds (Some threePolicies)
                   ''sriov-operator'' noOptions world_p0)) =
     [EvList ''sriov-operator'' noOptions
        (Inr [policyNamed ''default'', policyNamed ''a'', policyNamed ''b'']),
      EvPolicyDelete (policyNamed ''a'') None, EvPolicyDelete (policyNamed ''b'') None] \<and>
   fst (CleanAllNetworkNodePolicies (deleteFailsOn ''a'' forbidden) (Some threePolicies)
          ''sriov-operator'' noOptions world_p0) = Return (Some forbidden) \<and>
   trace_p (snd (CleanAllNetworkNodePolicies (deleteFailsOn ''a'' forbidden) (Some threePolicies)
                   ''sriov-operator'' noOptions world_p0)) =
     [EvList ''sriov-operator'' noOptions
        (Inr [policyNamed ''default'', policyNamed ''a'', policyNamed ''b'']),
      EvPolicyDelete (policyNamed ''a'') (Some forbidden)]"
proof -
  let ?items = "[policyNamed ''default'', policyNamed ''a'', policyNamed ''b'']"
  have ns: "''sriov-operator'' \<noteq> []" by simp
  have l: "SriovNetworkNodePolicies threePolicies (trace_p world_p0) ''sriov-operator'' noOptions =
             Inr ?items"
    by (simp add: threePolicies_def)
  have f: "filter notDefault ?items = [policyNamed ''a'', policyNamed ''b'']"
    by (simp add: notDefault_def policyNamed_def)
  have tr: "trace_p world_p0 = []" by (simp add: world_p0_def)
  have ok: "\<forall>i < length (filter notDefault ?items).
              fst (deleteSucceeds
                     ((trace_p world_p0 @ [EvList ''sriov-operator'' noOptions (Inr ?items)]) @
                      map deleted (take i (filter notDefault ?items)))
                     (filter notDefault ?items ! i)) = None"
    by (simp add: deleteSucceeds_def)
  have bad: "filter notDefault ?items = [] @ policyNamed ''a'' # [policyNamed ''b''] \<and>
      (\<forall>i < length ([] :: SriovNetworkNodePolicy list).
          fst (deleteFailsOn ''a'' forbidden
                 ((trace_p world_p0 @ [EvList ''sriov-operator'' noOptions (Inr ?items)]) @
                  map deleted (take i []))
                 ([] ! i)) = None) \<and>
      deleteFailsOn ''a'' forbidden
        ((trace_p world_p0 @ [EvList ''sriov-operator'' noOptions (Inr ?items)]) @ map deleted [])
        (policyNamed ''a'') = (Some forbidden, False)"
    unfolding f by (simp add: deleteFailsOn_def policyNamed_def)
  note t1 = CleanAllNetworkNodePolicies_spares_default
              [of deleteSucceeds "Some threePolicies" noOptions world_p0 "''sriov-operator''"
                  threePolicies ?items, unfolded Let_def]
  note t2 = CleanAllNetworkNodePolicies_spares_default
              [of "deleteFailsOn ''a'' forbidden" "Some threePolicies" noOptions world_p0
                  "''sriov-operator''" threePolicies ?items, unfolded Let_def]
  note r1 = t1 [THEN conjunct2, THEN mp, OF conjI [OF ns l], THEN conjunct1, THEN mp, OF ok]
  note r2 = t2 [THEN conjunct2, THEN mp, OF conjI [OF ns l], THEN conjunct2, rule_format, OF bad]
  show ?thesis
    using t1 [THEN conjunct1] l r1 [unfolded f] r2
    by (simp add: tr deleted_def f del: filter.simps)
qed

text \<open>
  Claim C7 does not hold of \<^verbatim>\<open>NewNodeConfigBuilder\<close>: with both \<^verbatim>\<open>nodeName\<close> and
  \<^verbatim>\<open>nsname\<close> empty the slot holds the message of the second check, the one about
  \<^verbatim>\<open>nsname\<close>, because the first check does not return. \<^verbatim>\<open>NewIbguBuilder\<close>, which
  returns after its first failed check, keeps the first message on the same input.
\<close>

theorem NewNodeConfigBuilder_keeps_last_failure:
  "errorMsg_nc (NewNodeConfigBuilder apiClient' [] []) = ''SriovFecNodeConfig 'nsname' is empty'' \<and>
   errorMsg_nc (NewNodeConfigBuilder apiClient' [] [])
     \<noteq> ''SriovFecNodeConfig 'nodeName' is empty'' \<and>
   map_option errorMsg
     (fst (NewIbguBuilder (Some \<lparr>Client = Some (memClient Map.empty), AttachScheme = None\<rparr>)
             [] [] world0)) = Some ''ibgu 'name' cannot be empty''"
  by (simp add: NewNodeConfigBuilder_def NewIbguBuilder_def Let_def)


end
